theory Spec2Isabelle
  imports Complex_Main "HOL-Library.AList"
begin

section \<open>JSON values and zod schemas\<close>

text \<open>
  The phase records are JSON values produced by a model call and checked against a zod
  schema. A JavaScript value is modelled by \<open>jvalue\<close>; \<open>JUndefined\<close> is the value a
  property read yields for a key that is absent. An object is an association list read
  with \<open>map_of\<close>. Numbers are modelled as reals (every number of a JSON text is a
  decimal literal).
\<close>

datatype jvalue =
    JUndefined
  | JNull
  | JBool bool
  | JNum real
  | JStr string
  | JArr "jvalue list"
  | JObj "(string \<times> jvalue) list"

text \<open>
  The zod constructors the repository uses: \<open>z.string().min(a).max(b)\<close>,
  \<open>z.number().min(a).max(b)\<close>, \<open>z.boolean()\<close>, \<open>z.literal(v)\<close>, \<open>z.enum([...])\<close>,
  \<open>z.union([...])\<close>, \<open>.optional()\<close>, \<open>.default(v)\<close>, \<open>z.array(s).min(a).max(b)\<close> and
  \<open>z.object({...})\<close>. A bound that the source does not give is \<open>None\<close>. The
  \<open>.describe(...)\<close> calls attach documentation only and are left out.
\<close>

datatype zschema =
    ZString "nat option" "nat option"
  | ZNumber "real option" "real option"
  | ZBoolean
  | ZLiteral jvalue
  | ZEnum "string list"
  | ZUnion "zschema list"
  | ZOptional zschema
  | ZDefault zschema jvalue
  | ZArray zschema "nat option" "nat option"
  | ZObject "(string \<times> zschema) list"

type_synonym zshape = "(string \<times> zschema) list"

definition getProp :: "(string \<times> jvalue) list \<Rightarrow> string \<Rightarrow> jvalue" where
  "getProp fs k = (case map_of fs k of None \<Rightarrow> JUndefined | Some v \<Rightarrow> v)"

definition above :: "'a::linorder option \<Rightarrow> 'a \<Rightarrow> bool" where
  "above lo x = (case lo of None \<Rightarrow> True | Some l \<Rightarrow> l \<le> x)"

definition below :: "'a::linorder option \<Rightarrow> 'a \<Rightarrow> bool" where
  "below hi x = (case hi of None \<Rightarrow> True | Some h \<Rightarrow> x \<le> h)"

fun first_ok :: "'a option list \<Rightarrow> 'a option" where
  "first_ok [] = None"
| "first_ok (None # rs) = first_ok rs"
| "first_ok (Some v # rs) = Some v"

definition strip :: "(string \<times> jvalue) list \<Rightarrow> (string \<times> jvalue) list" where
  "strip fs = filter (\<lambda>kv. snd kv \<noteq> JUndefined) fs"

text \<open>
  \<open>parse s v\<close> is zod's \<open>safeParse\<close>: \<open>None\<close> when \<open>v\<close> violates \<open>s\<close>, otherwise the
  parsed value. String bounds count the characters of the model's strings. An object schema reads exactly the keys of its shape (unknown keys are
  stripped), a default replaces \<open>undefined\<close> before the inner schema runs, a union takes
  its first option that succeeds.
\<close>

fun parse :: "zschema \<Rightarrow> jvalue \<Rightarrow> jvalue option" where
  "parse (ZString lo hi) v =
     (case v of JStr s \<Rightarrow> if above lo (length s) \<and> below hi (length s) then Some v else None
      | _ \<Rightarrow> None)"
| "parse (ZNumber lo hi) v =
     (case v of JNum x \<Rightarrow> if above lo x \<and> below hi x then Some v else None
      | _ \<Rightarrow> None)"
| "parse ZBoolean v = (case v of JBool b \<Rightarrow> Some v | _ \<Rightarrow> None)"
| "parse (ZLiteral l) v = (if v = l then Some v else None)"
| "parse (ZEnum xs) v = (case v of JStr s \<Rightarrow> if s \<in> set xs then Some v else None | _ \<Rightarrow> None)"
| "parse (ZUnion ss) v = first_ok (map (\<lambda>s. parse s v) ss)"
| "parse (ZOptional s) v = (if v = JUndefined then Some JUndefined else parse s v)"
| "parse (ZDefault s d) v = parse s (if v = JUndefined then d else v)"
| "parse (ZArray s lo hi) v =
     (case v of JArr xs \<Rightarrow>
        if above lo (length xs) \<and> below hi (length xs)
        then map_option JArr (those (map (parse s) xs)) else None
      | _ \<Rightarrow> None)"
| "parse (ZObject sh) v =
     (case v of JObj fs \<Rightarrow>
        map_option (\<lambda>kvs. JObj (strip kvs))
          (those (map (\<lambda>ks. map_option (Pair (fst ks)) (parse (snd ks) (getProp fs (fst ks)))) sh))
      | _ \<Rightarrow> None)"

definition valid :: "zschema \<Rightarrow> jvalue \<Rightarrow> bool" where
  "valid s v = (parse s v \<noteq> None)"

text \<open>
  \<open>base.extend(aug)\<close> builds the object schema whose shape is the JavaScript spread
  \<open>{...base.shape, ...aug}\<close>: a key of \<open>aug\<close> that is already in the base keeps its
  position and takes the new schema, a new key is appended.
\<close>

fun shape :: "zschema \<Rightarrow> zshape" where
  "shape (ZObject sh) = sh"
| "shape _ = []"

definition extend_obj :: "zschema \<Rightarrow> zshape \<Rightarrow> zschema" where
  "extend_obj base aug = ZObject (fold (\<lambda>ks. AList.update (fst ks) (snd ks)) aug (shape base))"

definition keys :: "zschema \<Rightarrow> string list" where
  "keys s = map fst (shape s)"

definition spec_of :: "zschema \<Rightarrow> string \<Rightarrow> zschema option" where
  "spec_of s k = map_of (shape s) k"

section \<open>The phase output schemas (phase-agents.ts)\<close>

abbreviation zstring :: zschema where "zstring \<equiv> ZString None None"
abbreviation znumber :: zschema where "znumber \<equiv> ZNumber None None"

definition PhaseAOutputSchema :: zschema where
  "PhaseAOutputSchema = ZObject
     [(''phase'', ZLiteral (JStr ''A'')),
      (''accepted'', ZBoolean),
      (''businessGoal'', zstring),
      (''timeHorizonDays'', ZUnion [ZLiteral (JNum 30), ZLiteral (JNum 60), ZLiteral (JNum 90)]),
      (''researchType'', ZEnum
         [''Commercial Opportunity Research'',
          ''Product Market Fit Validation'',
          ''Technology-to-Business Research'',
          ''Investment Opportunity Research'',
          ''Internal Problem-Solving Research'']),
      (''rejectedReason'', ZOptional zstring),
      (''mode'', ZEnum [''commercial'', ''product''])]"

definition PhaseBOutputSchema :: zschema where
  "PhaseBOutputSchema = extend_obj PhaseAOutputSchema
     [(''phase'', ZLiteral (JStr ''B'')),
      (''researchTypeValidated'', ZBoolean),
      (''validationNotes'', ZOptional zstring)]"

definition PhaseCOutputSchema :: zschema where
  "PhaseCOutputSchema = extend_obj PhaseBOutputSchema
     [(''phase'', ZLiteral (JStr ''C'')),
      (''successCriteria'', zstring),
      (''failureCriteria'', zstring),
      (''timeLimitDays'', ZNumber (Some 1) (Some 2)),
      (''costLimitUsd'', ZNumber None (Some 500)),
      (''cycleRiskOrNoGo'', ZOptional ZBoolean)]"

definition MethodSchema :: zschema where
  "MethodSchema = ZObject
     [(''hypothesis'', zstring),
      (''expectedBusinessEffect'', zstring),
      (''failureCondition'', zstring),
      (''proofThreshold'', zstring)]"

definition PhaseDOutputSchema :: zschema where
  "PhaseDOutputSchema = extend_obj PhaseCOutputSchema
     [(''phase'', ZLiteral (JStr ''D'')),
      (''methods'', ZArray MethodSchema (Some 1) (Some 3)),
      (''methodsJustification'', zstring)]"

definition PhaseEOutputSchema :: zschema where
  "PhaseEOutputSchema = extend_obj PhaseDOutputSchema
     [(''phase'', ZLiteral (JStr ''E'')),
      (''handoffPackage'', ZObject
         [(''researchGoal'', zstring),
          (''researchType'', zstring),
          (''icpAndBuyerRole'', zstring),
          (''initialPaidEngagement'', zstring),
          (''methodsWithHypothesesAndProof'', zstring),
          (''validationAlgorithm'', zstring),
          (''businessAndMoneyLogic'', zstring),
          (''cycleRiskFlag'', ZOptional ZBoolean),
          (''risksAndLimitations'', zstring),
          (''sourcesOrLinks'', zstring)]),
      (''handoffWithinPageLimit'', ZBoolean)]"

definition PhaseFOutputSchema :: zschema where
  "PhaseFOutputSchema = extend_obj PhaseEOutputSchema
     [(''phase'', ZLiteral (JStr ''F'')),
      (''status'', ZEnum [''SUCCESS'', ''PARTIAL_SUCCESS'', ''FAIL'']),
      (''executorFeedback'', ZObject
         [(''primaryReason'', zstring),
          (''whatWouldHaveChangedResult'', ZOptional zstring)])]"

definition IntakeOutputSchema :: zschema where
  "IntakeOutputSchema = ZObject [(''enrichedPrompt'', zstring)]"

datatype phase = PhaseA | PhaseB | PhaseC | PhaseD | PhaseE | PhaseF

fun schema_of :: "phase \<Rightarrow> zschema" where
  "schema_of PhaseA = PhaseAOutputSchema"
| "schema_of PhaseB = PhaseBOutputSchema"
| "schema_of PhaseC = PhaseCOutputSchema"
| "schema_of PhaseD = PhaseDOutputSchema"
| "schema_of PhaseE = PhaseEOutputSchema"
| "schema_of PhaseF = PhaseFOutputSchema"

text \<open>
  Each schema from B on is \<open>extend\<close> of the one before it; \<open>tag\<close> is the letter its
  \<open>phase\<close> literal carries.
\<close>

fun prev_phase :: "phase \<Rightarrow> phase option" where
  "prev_phase PhaseA = None"
| "prev_phase PhaseB = Some PhaseA"
| "prev_phase PhaseC = Some PhaseB"
| "prev_phase PhaseD = Some PhaseC"
| "prev_phase PhaseE = Some PhaseD"
| "prev_phase PhaseF = Some PhaseE"

fun earlier :: "phase \<Rightarrow> phase list" where
  "earlier PhaseA = []"
| "earlier PhaseB = [PhaseA]"
| "earlier PhaseC = [PhaseA, PhaseB]"
| "earlier PhaseD = [PhaseA, PhaseB, PhaseC]"
| "earlier PhaseE = [PhaseA, PhaseB, PhaseC, PhaseD]"
| "earlier PhaseF = [PhaseA, PhaseB, PhaseC, PhaseD, PhaseE]"

fun tag :: "phase \<Rightarrow> string" where
  "tag PhaseA = ''A''"
| "tag PhaseB = ''B''"
| "tag PhaseC = ''C''"
| "tag PhaseD = ''D''"
| "tag PhaseE = ''E''"
| "tag PhaseF = ''F''"

text \<open>A sample record, used to exercise the schemas on a concrete input.\<close>

definition sample_fields :: "(string \<times> jvalue) list" where
  "sample_fields =
     [(''accepted'', JBool True),
      (''businessGoal'', JStr ''Reach $25k MRR''),
      (''timeHorizonDays'', JNum 60),
      (''researchType'', JStr ''Product Market Fit Validation''),
      (''mode'', JStr ''product''),
      (''researchTypeValidated'', JBool True),
      (''successCriteria'', JStr ''2 LOI''),
      (''failureCriteria'', JStr ''0 LOI''),
      (''timeLimitDays'', JNum 2),
      (''costLimitUsd'', JNum 500),
      (''methods'', JArr [JObj
         [(''hypothesis'', JStr ''h''),
          (''expectedBusinessEffect'', JStr ''e''),
          (''failureCondition'', JStr ''f''),
          (''proofThreshold'', JStr ''p'')]]),
      (''methodsJustification'', JStr ''j''),
      (''handoffPackage'', JObj
         [(''researchGoal'', JStr ''g''),
          (''researchType'', JStr ''t''),
          (''icpAndBuyerRole'', JStr ''i''),
          (''initialPaidEngagement'', JStr ''p''),
          (''methodsWithHypothesesAndProof'', JStr ''m''),
          (''validationAlgorithm'', JStr ''v''),
          (''businessAndMoneyLogic'', JStr ''b''),
          (''risksAndLimitations'', JStr ''r''),
          (''sourcesOrLinks'', JStr ''s'')]),
      (''handoffWithinPageLimit'', JBool True),
      (''status'', JStr ''SUCCESS''),
      (''executorFeedback'', JObj [(''primaryReason'', JStr ''ok'')])]"

definition sample_record :: "phase \<Rightarrow> (string \<times> jvalue) list" where
  "sample_record p = (''phase'', JStr (tag p)) # sample_fields"

fun fields_of :: "jvalue \<Rightarrow> (string \<times> jvalue) list" where
  "fields_of (JObj fs) = fs"
| "fields_of _ = []"

section \<open>The search tools (search-tools.ts)\<close>

text \<open>
  Strings are byte lists (UTF-8). The environment of a tool run is the process
  environment (\<open>None\<close> when \<open>typeof process === 'undefined'\<close>) and \<open>fetch\<close>. The
  \<open>n\<close>-th call of \<open>fetch\<close> in a run either rejects with a thrown value or resolves to a
  response, whose \<open>text()\<close> and \<open>json()\<close> may reject in turn. The JSON body is read
  at the type the source casts it to.
\<close>

datatype thrown = Error string | NonError string

fun message_of :: "thrown \<Rightarrow> string" where
  "message_of (Error m) = m"
| "message_of (NonError s) = s"

record organic_item =
  o_title :: "string option"
  o_link :: "string option"
  o_snippet :: "string option"

record serper_data =
  organic :: "organic_item list option"

record response =
  res_ok :: bool
  res_statusText :: string
  res_text :: "thrown + string"
  res_json :: "thrown + serper_data"

record request =
  req_url :: string
  req_method :: string
  req_headers :: "(string \<times> string) list"
  req_body :: jvalue

type_synonym fetch = "nat \<Rightarrow> request \<Rightarrow> thrown + response"

type_synonym process = "(string \<rightharpoonup> string) option"

record search_result =
  title :: string
  link :: string
  snippet :: string

record search_output =
  success :: bool
  query :: string
  results :: "search_result list"
  error :: "string option"

record finding =
  f_query :: string
  f_results :: "search_result list"

record deep_output =
  d_success :: bool
  reasoning :: string
  findings :: "finding list"
  synthesisHint :: string
  d_error :: "string option"

definition SEARCH_API_URL :: string where
  "SEARCH_API_URL = ''https://google.serper.dev/search''"

text \<open>
  \<open>String.prototype.trim\<close> removes the WhiteSpace and LineTerminator code points from
  both ends; \<open>whitespace\<close> lists their UTF-8 encodings.
\<close>

definition whitespace :: "string list" where
  "whitespace =
     [[CHR 0x09], [CHR 0x0A], [CHR 0x0B], [CHR 0x0C], [CHR 0x0D], [CHR 0x20],
      [CHR 0xC2, CHR 0xA0],
      [CHR 0xE1, CHR 0x9A, CHR 0x80],
      [CHR 0xE2, CHR 0x80, CHR 0x80], [CHR 0xE2, CHR 0x80, CHR 0x81],
      [CHR 0xE2, CHR 0x80, CHR 0x82], [CHR 0xE2, CHR 0x80, CHR 0x83],
      [CHR 0xE2, CHR 0x80, CHR 0x84], [CHR 0xE2, CHR 0x80, CHR 0x85],
      [CHR 0xE2, CHR 0x80, CHR 0x86], [CHR 0xE2, CHR 0x80, CHR 0x87],
      [CHR 0xE2, CHR 0x80, CHR 0x88], [CHR 0xE2, CHR 0x80, CHR 0x89],
      [CHR 0xE2, CHR 0x80, CHR 0x8A],
      [CHR 0xE2, CHR 0x80, CHR 0xA8], [CHR 0xE2, CHR 0x80, CHR 0xA9],
      [CHR 0xE2, CHR 0x80, CHR 0xAF],
      [CHR 0xE2, CHR 0x81, CHR 0x9F],
      [CHR 0xE3, CHR 0x80, CHR 0x80],
      [CHR 0xEF, CHR 0xBB, CHR 0xBF]]"

function trimWith :: "string list \<Rightarrow> string \<Rightarrow> string" where
  "trimWith ws s =
     (case find (\<lambda>w. w \<noteq> [] \<and> take (length w) s = w) ws of
        None \<Rightarrow> s
      | Some w \<Rightarrow> trimWith ws (drop (length w) s))"
  by pat_completeness auto
termination
proof (relation "measure (\<lambda>(ws, s). length s)")
  show "wf (measure (\<lambda>(ws, s). length s))" by simp
next
  fix ws :: "string list" and s w :: string
  assume "find (\<lambda>w. w \<noteq> [] \<and> take (length w) s = w) ws = Some w"
  then have w: "w \<noteq> []" and t: "take (length w) s = w"
    by (auto simp: find_Some_iff)
  from t have "length (take (length w) s) = length w"
    by simp
  then have "length w \<le> length s"
    by simp
  with w show "((ws, drop (length w) s), (ws, s)) \<in> measure (\<lambda>(ws, s). length s)"
    by (cases w) auto
qed

declare trimWith.simps [simp del]

definition trim :: "string \<Rightarrow> string" where
  "trim s = rev (trimWith (map rev whitespace) (rev (trimWith whitespace s)))"

definition getSerperApiKey :: "process \<Rightarrow> string option" where
  "getSerperApiKey proc =
     (case proc of
        None \<Rightarrow> None
      | Some env \<Rightarrow>
          (case env ''SERPER_API_KEY'' of
             None \<Rightarrow> None
           | Some v \<Rightarrow> if trim v = [] then None else Some (trim v)))"

text \<open>
  \<open>xs.slice(0, n)\<close>: \<open>n\<close> is truncated to an integer, a negative end counts from the
  end of the array, and the result is clamped to the array.
\<close>

definition trunc :: "real \<Rightarrow> int" where
  "trunc x = (if 0 \<le> x then \<lfloor>x\<rfloor> else \<lceil>x\<rceil>)"

definition slice0 :: "'a list \<Rightarrow> real \<Rightarrow> 'a list" where
  "slice0 xs n =
     (let len = int (length xs);
          e = trunc n;
          fin = (if e < 0 then max (len + e) 0 else min e len)
      in take (nat fin) xs)"

definition orEmpty :: "string option \<Rightarrow> string" where
  "orEmpty v = (case v of None \<Rightarrow> [] | Some s \<Rightarrow> s)"

definition to_result :: "organic_item \<Rightarrow> search_result" where
  "to_result item = \<lparr>title = orEmpty (o_title item), link = orEmpty (o_link item),
                     snippet = orEmpty (o_snippet item)\<rparr>"

definition organic_of :: "serper_data \<Rightarrow> organic_item list" where
  "organic_of data = (case organic data of None \<Rightarrow> [] | Some xs \<Rightarrow> xs)"

definition mk_request :: "string \<Rightarrow> string \<Rightarrow> real \<Rightarrow> request" where
  "mk_request apiKey q num =
     \<lparr>req_url = SEARCH_API_URL, req_method = ''POST'',
      req_headers = [(''Content-Type'', ''application/json''), (''X-API-KEY'', apiKey)],
      req_body = JObj [(''q'', JStr q), (''num'', JNum num)]\<rparr>"

subsection \<open>internet-search\<close>

definition internetSearchTool_inputSchema :: zschema where
  "internetSearchTool_inputSchema = ZObject
     [(''query'', ZString (Some 1) (Some 300)),
      (''numResults'', ZDefault (ZOptional (ZNumber (Some 1) (Some 10))) (JNum 5))]"

definition unsuccessful :: "string \<Rightarrow> string \<Rightarrow> search_output" where
  "unsuccessful q msg = \<lparr>success = False, query = q, results = [], error = Some msg\<rparr>"

definition internetSearchTool_execute :: "process \<Rightarrow> fetch \<Rightarrow> string \<Rightarrow> real \<Rightarrow> search_output" where
  "internetSearchTool_execute proc fetch q numResults =
     (case getSerperApiKey proc of
        None \<Rightarrow> unsuccessful q ''SERPER_API_KEY not set. Add it to .env for live web search.''
      | Some apiKey \<Rightarrow>
          (case fetch 0 (mk_request apiKey q numResults) of
             Inl e \<Rightarrow> unsuccessful q (message_of e)
           | Inr res \<Rightarrow>
               if \<not> res_ok res then
                 (case res_text res of
                    Inl e \<Rightarrow> unsuccessful q (message_of e)
                  | Inr err \<Rightarrow> unsuccessful q (if err \<noteq> [] then err else res_statusText res))
               else
                 (case res_json res of
                    Inl e \<Rightarrow> unsuccessful q (message_of e)
                  | Inr data \<Rightarrow>
                      \<lparr>success = True, query = q,
                       results = map to_result (slice0 (organic_of data) numResults),
                       error = None\<rparr>)))"

subsection \<open>deep-research\<close>

definition deepResearchTool_inputSchema :: zschema where
  "deepResearchTool_inputSchema = ZObject
     [(''reasoning'', zstring),
      (''queries'', ZArray (ZString (Some 1) (Some 200)) (Some 1) (Some 5))]"

definition numPerQuery :: real where
  "numPerQuery = 3"

text \<open>One turn of the loop body: the entry pushed for \<open>query\<close> at the \<open>i\<close>-th fetch.\<close>

definition query_finding :: "fetch \<Rightarrow> string \<Rightarrow> nat \<Rightarrow> string \<Rightarrow> finding" where
  "query_finding fetch apiKey i q =
     (case fetch i (mk_request apiKey q numPerQuery) of
        Inl e \<Rightarrow> \<lparr>f_query = q, f_results = []\<rparr>
      | Inr res \<Rightarrow>
          (case (if res_ok res then res_json res else Inr \<lparr>organic = Some []\<rparr>) of
             Inl e \<Rightarrow> \<lparr>f_query = q, f_results = []\<rparr>
           | Inr data \<Rightarrow>
               \<lparr>f_query = q,
                f_results = map to_result (slice0 (organic_of data) numPerQuery)\<rparr>))"

fun run_queries :: "fetch \<Rightarrow> string \<Rightarrow> nat \<Rightarrow> string list \<Rightarrow> finding list \<Rightarrow> finding list" where
  "run_queries fetch apiKey i [] acc = acc"
| "run_queries fetch apiKey i (q # qs) acc =
     run_queries fetch apiKey (Suc i) qs (acc @ [query_finding fetch apiKey i q])"

definition deepResearchTool_execute :: "process \<Rightarrow> fetch \<Rightarrow> string \<Rightarrow> string list \<Rightarrow> deep_output" where
  "deepResearchTool_execute proc fetch r queries =
     (case getSerperApiKey proc of
        None \<Rightarrow>
          \<lparr>d_success = False, reasoning = r, findings = [],
           synthesisHint = ''Add SERPER_API_KEY to .env for live deep research.'',
           d_error = Some ''SERPER_API_KEY not set.''\<rparr>
      | Some apiKey \<Rightarrow>
          \<lparr>d_success = True, reasoning = r,
           findings = run_queries fetch apiKey 0 queries [],
           synthesisHint = ''Synthesize the above findings with respect to: '' @ r
              @ ''. Cite sources; note conflicts or gaps.'',
           d_error = None\<rparr>)"

section \<open>The pipeline declaration (research-execution-workflow.ts)\<close>

text \<open>
  \<open>createStep\<close>, \<open>createWorkflow\<close>, \<open>.then\<close> and \<open>.commit\<close> belong to the workflow
  framework. A workflow under construction is the list of entries its builder calls
  have appended; \<open>.then\<close> appends a sequential entry, and the framework's other builder
  calls (parallel, branch, loops) would append entries of the other kinds.
\<close>

definition emdash :: string where
  "emdash = [CHR 0xE2, CHR 0x80, CHR 0x94]"

definition arrow :: string where
  "arrow = [CHR 0xE2, CHR 0x86, CHR 0x92]"

record agent =
  agent_id :: string
  agent_name :: string

record ResearchExecutionAgents =
  intakeAgent :: agent
  phaseAAgent :: agent
  phaseBAgent :: agent
  phaseCAgent :: agent
  phaseDAgent :: agent
  phaseEAgent :: agent
  phaseFAgent :: agent

text \<open>The agents that index.ts passes in (createPhaseAgentsWithMemory).\<close>

definition createPhaseAgentsWithMemory :: ResearchExecutionAgents where
  "createPhaseAgentsWithMemory =
     \<lparr>intakeAgent = \<lparr>agent_id = ''intake-agent'',
                      agent_name = ''Intake '' @ emdash @ '' Research & Enrichment''\<rparr>,
      phaseAAgent = \<lparr>agent_id = ''phase-a-agent'',
                      agent_name = ''Phase A '' @ emdash @ '' Task Intake''\<rparr>,
      phaseBAgent = \<lparr>agent_id = ''phase-b-agent'',
                      agent_name = ''Phase B '' @ emdash @ '' Research Type''\<rparr>,
      phaseCAgent = \<lparr>agent_id = ''phase-c-agent'',
                      agent_name = ''Phase C '' @ emdash @ '' Metrics Lock''\<rparr>,
      phaseDAgent = \<lparr>agent_id = ''phase-d-agent'',
                      agent_name = ''Phase D '' @ emdash @ '' Method Selection''\<rparr>,
      phaseEAgent = \<lparr>agent_id = ''phase-e-agent'',
                      agent_name = ''Phase E '' @ emdash @ '' Handoff Package''\<rparr>,
      phaseFAgent = \<lparr>agent_id = ''phase-f-agent'',
                      agent_name = ''Phase F '' @ emdash @ '' Validation & Status''\<rparr>\<rparr>"

text \<open>
  What a bridge's \<open>execute\<close> computes: the intake bridge passes
  \<open>inputData.enrichedPrompt\<close> on, the others call \<open>buildPromptForNextPhase\<close> with a
  fixed label.
\<close>

datatype bridge_exec = PassEnrichedPrompt | NextPhasePrompt string

datatype step =
    AgentStep agent zschema
  | BridgeStep string string zschema zschema bridge_exec

datatype flow_entry =
    Sequential step
  | Parallel "step list"
  | Branch "step list"
  | Loop step

record workflow_decl =
  wf_id :: string
  wf_name :: string
  wf_inputSchema :: zschema
  wf_outputSchema :: zschema
  stepFlow :: "flow_entry list"
  committed :: bool

definition createWorkflow :: "string \<Rightarrow> string \<Rightarrow> zschema \<Rightarrow> zschema \<Rightarrow> workflow_decl" where
  "createWorkflow i n inp out =
     \<lparr>wf_id = i, wf_name = n, wf_inputSchema = inp, wf_outputSchema = out,
      stepFlow = [], committed = False\<rparr>"

definition then_step :: "workflow_decl \<Rightarrow> step \<Rightarrow> workflow_decl" where
  "then_step w s = w\<lparr>stepFlow := stepFlow w @ [Sequential s]\<rparr>"

definition commit :: "workflow_decl \<Rightarrow> workflow_decl" where
  "commit w = w\<lparr>committed := True\<rparr>"

definition WorkflowInputSchema :: zschema where
  "WorkflowInputSchema = ZObject [(''prompt'', zstring)]"

definition AgentInputSchema :: zschema where
  "AgentInputSchema = ZObject [(''prompt'', zstring)]"

text \<open>\<open>JSON.stringify(v, null, 2)\<close> is a parameter.\<close>

definition buildPromptForNextPhase :: "(jvalue \<Rightarrow> string) \<Rightarrow> string \<Rightarrow> jvalue \<Rightarrow> string" where
  "buildPromptForNextPhase stringify phaseLabel previousOutput =
     ''[Previous phase output]'' @ [CHR 0x0A] @ stringify previousOutput @ [CHR 0x0A, CHR 0x0A]
     @ ''Proceed to '' @ phaseLabel
     @ ''. Output the complete structured result for this phase only (include all prior phase fields plus this phase's new fields).''"

fun run_bridge :: "(jvalue \<Rightarrow> string) \<Rightarrow> bridge_exec \<Rightarrow> jvalue \<Rightarrow> jvalue" where
  "run_bridge stringify PassEnrichedPrompt inputData =
     JObj [(''prompt'', (case inputData of JObj fs \<Rightarrow> getProp fs ''enrichedPrompt'' | _ \<Rightarrow> JUndefined))]"
| "run_bridge stringify (NextPhasePrompt label) inputData =
     JObj [(''prompt'', JStr (buildPromptForNextPhase stringify label inputData))]"

definition stepIntake :: "ResearchExecutionAgents \<Rightarrow> step" where
  "stepIntake agents = AgentStep (intakeAgent agents) IntakeOutputSchema"

definition bridgeIntakeToA :: step where
  "bridgeIntakeToA = BridgeStep ''bridge-intake-to-a''
     ''Pass enriched prompt from Intake to Phase A''
     IntakeOutputSchema AgentInputSchema PassEnrichedPrompt"

definition stepPhaseA :: "ResearchExecutionAgents \<Rightarrow> step" where
  "stepPhaseA agents = AgentStep (phaseAAgent agents) PhaseAOutputSchema"

definition bridgeAtoB :: step where
  "bridgeAtoB = BridgeStep ''bridge-a-to-b''
     ''Pass Phase A output to Phase B as context''
     PhaseAOutputSchema AgentInputSchema
     (NextPhasePrompt (''Phase B '' @ emdash @ '' Research Type Validation''))"

definition stepPhaseB :: "ResearchExecutionAgents \<Rightarrow> step" where
  "stepPhaseB agents = AgentStep (phaseBAgent agents) PhaseBOutputSchema"

definition bridgeBtoC :: step where
  "bridgeBtoC = BridgeStep ''bridge-b-to-c''
     ''Pass Phase B output to Phase C as context''
     PhaseBOutputSchema AgentInputSchema
     (NextPhasePrompt (''Phase C '' @ emdash @ '' Metrics & Constraints Lock''))"

definition stepPhaseC :: "ResearchExecutionAgents \<Rightarrow> step" where
  "stepPhaseC agents = AgentStep (phaseCAgent agents) PhaseCOutputSchema"

definition bridgeCtoD :: step where
  "bridgeCtoD = BridgeStep ''bridge-c-to-d''
     ''Pass Phase C output to Phase D as context''
     PhaseCOutputSchema AgentInputSchema
     (NextPhasePrompt (''Phase D '' @ emdash @ '' Solution & Method Selection''))"

definition stepPhaseD :: "ResearchExecutionAgents \<Rightarrow> step" where
  "stepPhaseD agents = AgentStep (phaseDAgent agents) PhaseDOutputSchema"

definition bridgeDtoE :: step where
  "bridgeDtoE = BridgeStep ''bridge-d-to-e''
     ''Pass Phase D output to Phase E as context''
     PhaseDOutputSchema AgentInputSchema
     (NextPhasePrompt (''Phase E '' @ emdash @ '' Handoff Package Formation''))"

definition stepPhaseE :: "ResearchExecutionAgents \<Rightarrow> step" where
  "stepPhaseE agents = AgentStep (phaseEAgent agents) PhaseEOutputSchema"

definition bridgeEtoF :: step where
  "bridgeEtoF = BridgeStep ''bridge-e-to-f''
     ''Pass Phase E output to Phase F as context''
     PhaseEOutputSchema AgentInputSchema
     (NextPhasePrompt (''Phase F '' @ emdash @ '' Validation & Status''))"

definition stepPhaseF :: "ResearchExecutionAgents \<Rightarrow> step" where
  "stepPhaseF agents = AgentStep (phaseFAgent agents) PhaseFOutputSchema"

definition createResearchExecutionWorkflow :: "ResearchExecutionAgents \<Rightarrow> workflow_decl" where
  "createResearchExecutionWorkflow agents =
     commit
      (then_step (then_step (then_step (then_step (then_step (then_step (then_step
        (then_step (then_step (then_step (then_step (then_step (then_step
          (createWorkflow ''research-execution''
             (''R&D Execution (Unified: Intake + Phases A'' @ [CHR 0xE2, CHR 0x80, CHR 0x93] @ ''F)'')
             WorkflowInputSchema PhaseFOutputSchema)
          (stepIntake agents))
          bridgeIntakeToA)
          (stepPhaseA agents))
          bridgeAtoB)
          (stepPhaseB agents))
          bridgeBtoC)
          (stepPhaseC agents))
          bridgeCtoD)
          (stepPhaseD agents))
          bridgeDtoE)
          (stepPhaseE agents))
          bridgeEtoF)
          (stepPhaseF agents))"

fun is_agent_step :: "flow_entry \<Rightarrow> bool" where
  "is_agent_step (Sequential (AgentStep a s)) = True"
| "is_agent_step _ = False"

fun is_bridge_step :: "flow_entry \<Rightarrow> bool" where
  "is_bridge_step (Sequential (BridgeStep i d inp out ex)) = True"
| "is_bridge_step _ = False"

fun is_sequential :: "flow_entry \<Rightarrow> bool" where
  "is_sequential (Sequential s) = True"
| "is_sequential _ = False"

section \<open>The run-research-execution-workflow tool (research-agent.ts)\<close>

text \<open>
  An awaited promise settles after some milliseconds, with a value or with a thrown
  value, or it never settles. The workflow handle is a collaborator: \<open>createRun\<close> and
  \<open>start\<close> are what the caller is given.
\<close>

datatype 'a promise = Resolves nat 'a | Rejects nat thrown | Pending

record run_outcome =
  status :: string
  result :: jvalue
  out_error :: "thrown option"

datatype ctx_key = MASTRA_THREAD_ID_KEY | MASTRA_RESOURCE_ID_KEY | Key string

record start_args =
  inputData_prompt :: string
  requestContext :: "(ctx_key \<times> jvalue) list"

record run =
  runId :: string
  start :: "start_args \<Rightarrow> run_outcome promise"

record workflow_handle =
  createRun :: "run promise"

datatype workflow_source =
    Handle workflow_handle
  | NullSource
  | Getter "workflow_handle option"

type_synonym tool_context = "(string \<Rightarrow> workflow_handle) option"

definition resolveWorkflow :: "workflow_source \<Rightarrow> tool_context \<Rightarrow> workflow_handle option" where
  "resolveWorkflow source ctx =
     (case source of
        Getter r \<Rightarrow> r
      | Handle w \<Rightarrow> Some w
      | NullSource \<Rightarrow>
          (case ctx of
             Some getWorkflow \<Rightarrow> Some (getWorkflow ''researchExecution'')
           | None \<Rightarrow> None))"

record tool_output =
  t_run :: bool
  t_status :: "string option"
  t_result :: jvalue
  t_error :: "string option"
  t_message :: string

definition report :: "run_outcome \<Rightarrow> tool_output" where
  "report outcome =
     (let st = status outcome;
          errorStr = (if st = ''failed'' \<and> out_error outcome \<noteq> None
                      then Some (message_of (the (out_error outcome))) else None);
          res = (if st = ''success'' then result outcome else JUndefined);
          msg = (if st = ''success''
                 then ''Pipeline completed successfully (Phases A'' @ arrow
                      @ ''F). Final result is below; tell the user in this chat.''
                 else if errorStr \<noteq> None \<and> errorStr \<noteq> Some []
                 then ''Pipeline failed: '' @ the errorStr @ ''. Tell the user in this chat.''
                 else ''Pipeline finished with status: '' @ st @ ''. Tell the user in this chat.'')
      in \<lparr>t_run = True, t_status = Some st, t_result = res, t_error = errorStr, t_message = msg\<rparr>)"

definition runTool_execute :: "workflow_source \<Rightarrow> tool_context \<Rightarrow> string \<Rightarrow> tool_output promise" where
  "runTool_execute workflowSource ctx p =
     (case resolveWorkflow workflowSource ctx of
        None \<Rightarrow>
          Resolves 0
            \<lparr>t_run = False, t_status = None, t_result = JUndefined,
             t_error = Some ''Workflow not available in this context'',
             t_message = ''The pipeline could not be started (workflow not available). Please try again or use Research AI.''\<rparr>
      | Some workflow \<Rightarrow>
          (case createRun workflow of
             Pending \<Rightarrow> Pending
           | Rejects t e \<Rightarrow> Rejects t e
           | Resolves t r \<Rightarrow>
               (case start r
                  \<lparr>inputData_prompt = p,
                   requestContext =
                     [(MASTRA_THREAD_ID_KEY, JStr (runId r)),
                      (MASTRA_RESOURCE_ID_KEY, JStr (runId r)),
                      (Key ''MastraMemory'',
                       JObj [(''thread'', JObj [(''id'', JStr (runId r))]),
                             (''resourceId'', JStr (runId r))])]\<rparr> of
                  Pending \<Rightarrow> Pending
                | Rejects t' e \<Rightarrow> Rejects (t + t') e
                | Resolves t' outcome \<Rightarrow> Resolves (t + t') (report outcome))))"

text \<open>
  The README states a budget of ten minutes for a run. Nothing in research-agent.ts
  refers to it; it is used only to state what the tool does past it.
\<close>

definition budget_ms :: nat where
  "budget_ms = 10 * 60 * 1000"

section \<open>Sample inputs\<close>

text \<open>Concrete values on which the tools are exercised.\<close>

definition ok_response :: "organic_item list \<Rightarrow> response" where
  "ok_response items = \<lparr>res_ok = True, res_statusText = ''OK'', res_text = Inr [],
     res_json = Inr \<lparr>organic = Some items\<rparr>\<rparr>"

definition sample_item :: organic_item where
  "sample_item = \<lparr>o_title = Some ''T'', o_link = Some ''https://example.org'', o_snippet = None\<rparr>"

definition sample_process :: process where
  "sample_process = Some [''SERPER_API_KEY'' \<mapsto> ''k'']"

section \<open>Properties of the schemas\<close>

subsection \<open>Object schemas\<close>

lemma those_map_None: "those (map f xs) = None \<longleftrightarrow> (\<exists>x\<in>set xs. f x = None)"
  by (induction xs) (auto split: option.splits)

lemma those_map_Some: "those (map f xs) = Some ys \<Longrightarrow> ys = map (\<lambda>x. the (f x)) xs"
  by (induction xs arbitrary: ys) (auto split: option.splits)

lemma valid_ZObject:
  "valid (ZObject sh) v \<longleftrightarrow> (\<exists>fs. v = JObj fs \<and> (\<forall>ks\<in>set sh. valid (snd ks) (getProp fs (fst ks))))"
  by (cases v) (simp_all add: valid_def those_map_None)

lemma getProp_update: "getProp (AList.update k v fs) k' = (if k' = k then v else getProp fs k')"
  by (simp add: getProp_def update_conv')

lemma getProp_strip: "distinct (map fst kvs) \<Longrightarrow> getProp (strip kvs) k = getProp kvs k"
proof (induction kvs)
  case Nil
  show ?case by (simp add: strip_def)
next
  case (Cons kv kvs)
  have absent: "fst kv \<notin> fst ` set (filter (\<lambda>kv. snd kv \<noteq> JUndefined) kvs)"
    using Cons.prems by auto
  have "map_of (filter (\<lambda>kv. snd kv \<noteq> JUndefined) kvs) (fst kv) = None"
    using absent by (simp add: map_of_eq_None_iff)
  with Cons show ?case
    by (cases kv) (auto simp: getProp_def strip_def)
qed

lemma those_keys:
  "those (map (\<lambda>ks. map_option (Pair (fst ks)) (f ks)) sh) = Some kvs \<Longrightarrow> map fst kvs = map fst sh"
  by (induction sh arbitrary: kvs) (auto split: option.splits)

lemma parse_ZObject_prop:
  assumes "parse (ZObject sh) v = Some w" and "distinct (map fst sh)" and "(k, s) \<in> set sh"
  shows "\<exists>fs ofs. v = JObj fs \<and> w = JObj ofs \<and> parse s (getProp fs k) = Some (getProp ofs k)"
proof -
  from assms(1) obtain fs where v: "v = JObj fs" by (cases v) simp_all
  let ?g = "\<lambda>ks. map_option (Pair (fst ks)) (parse (snd ks) (getProp fs (fst ks)))"
  from assms(1) v obtain kvs where th: "those (map ?g sh) = Some kvs" and w: "w = JObj (strip kvs)"
    by auto
  have kvs: "kvs = map (\<lambda>x. the (?g x)) sh" using those_map_Some [OF th] .
  have dist: "distinct (map fst kvs)" using those_keys [OF th] assms(2) by simp
  from th have "those (map ?g sh) \<noteq> None" by simp
  then have "?g (k, s) \<noteq> None" using assms(3) by (auto simp: those_map_None)
  then obtain u where u: "parse s (getProp fs k) = Some u" by auto
  have "(k, u) \<in> set kvs" using assms(3) u unfolding kvs by force
  with dist have "map_of kvs k = Some u" by simp
  then have "getProp kvs k = u" by (simp add: getProp_def)
  then have "getProp (strip kvs) k = u" using getProp_strip [OF dist] by simp
  with v w u show ?thesis by simp
qed


lemma shape_A: "shape PhaseAOutputSchema =
     [(''phase'', ZLiteral (JStr ''A'')),
      (''accepted'', ZBoolean),
      (''businessGoal'', zstring),
      (''timeHorizonDays'', ZUnion [ZLiteral (JNum 30), ZLiteral (JNum 60), ZLiteral (JNum 90)]),
      (''researchType'', ZEnum
         [''Commercial Opportunity Research'',
          ''Product Market Fit Validation'',
          ''Technology-to-Business Research'',
          ''Investment Opportunity Research'',
          ''Internal Problem-Solving Research'']),
      (''rejectedReason'', ZOptional zstring),
      (''mode'', ZEnum [''commercial'', ''product''])]"
  by (simp add: PhaseAOutputSchema_def)

lemma shape_B: "shape PhaseBOutputSchema =
     [(''phase'', ZLiteral (JStr ''B'')),
      (''accepted'', ZBoolean),
      (''businessGoal'', zstring),
      (''timeHorizonDays'', ZUnion [ZLiteral (JNum 30), ZLiteral (JNum 60), ZLiteral (JNum 90)]),
      (''researchType'', ZEnum
         [''Commercial Opportunity Research'',
          ''Product Market Fit Validation'',
          ''Technology-to-Business Research'',
          ''Investment Opportunity Research'',
          ''Internal Problem-Solving Research'']),
      (''rejectedReason'', ZOptional zstring),
      (''mode'', ZEnum [''commercial'', ''product'']),
      (''researchTypeValidated'', ZBoolean),
      (''validationNotes'', ZOptional zstring)]"
  by (simp add: PhaseBOutputSchema_def extend_obj_def shape_A)

lemma shape_C: "shape PhaseCOutputSchema =
     [(''phase'', ZLiteral (JStr ''C'')),
      (''accepted'', ZBoolean),
      (''businessGoal'', zstring),
      (''timeHorizonDays'', ZUnion [ZLiteral (JNum 30), ZLiteral (JNum 60), ZLiteral (JNum 90)]),
      (''researchType'', ZEnum
         [''Commercial Opportunity Research'',
          ''Product Market Fit Validation'',
          ''Technology-to-Business Research'',
          ''Investment Opportunity Research'',
          ''Internal Problem-Solving Research'']),
      (''rejectedReason'', ZOptional zstring),
      (''mode'', ZEnum [''commercial'', ''product'']),
      (''researchTypeValidated'', ZBoolean),
      (''validationNotes'', ZOptional zstring),
      (''successCriteria'', zstring),
      (''failureCriteria'', zstring),
      (''timeLimitDays'', ZNumber (Some 1) (Some 2)),
      (''costLimitUsd'', ZNumber None (Some 500)),
      (''cycleRiskOrNoGo'', ZOptional ZBoolean)]"
  by (simp add: PhaseCOutputSchema_def extend_obj_def shape_B)

lemma shape_D: "shape PhaseDOutputSchema =
     [(''phase'', ZLiteral (JStr ''D'')),
      (''accepted'', ZBoolean),
      (''businessGoal'', zstring),
      (''timeHorizonDays'', ZUnion [ZLiteral (JNum 30), ZLiteral (JNum 60), ZLiteral (JNum 90)]),
      (''researchType'', ZEnum
         [''Commercial Opportunity Research'',
          ''Product Market Fit Validation'',
          ''Technology-to-Business Research'',
          ''Investment Opportunity Research'',
          ''Internal Problem-Solving Research'']),
      (''rejectedReason'', ZOptional zstring),
      (''mode'', ZEnum [''commercial'', ''product'']),
      (''researchTypeValidated'', ZBoolean),
      (''validationNotes'', ZOptional zstring),
      (''successCriteria'', zstring),
      (''failureCriteria'', zstring),
      (''timeLimitDays'', ZNumber (Some 1) (Some 2)),
      (''costLimitUsd'', ZNumber None (Some 500)),
      (''cycleRiskOrNoGo'', ZOptional ZBoolean),
      (''methods'', ZArray MethodSchema (Some 1) (Some 3)),
      (''methodsJustification'', zstring)]"
  by (simp add: PhaseDOutputSchema_def extend_obj_def shape_C)

lemma shape_E: "shape PhaseEOutputSchema =
     [(''phase'', ZLiteral (JStr ''E'')),
      (''accepted'', ZBoolean),
      (''businessGoal'', zstring),
      (''timeHorizonDays'', ZUnion [ZLiteral (JNum 30), ZLiteral (JNum 60), ZLiteral (JNum 90)]),
      (''researchType'', ZEnum
         [''Commercial Opportunity Research'',
          ''Product Market Fit Validation'',
          ''Technology-to-Business Research'',
          ''Investment Opportunity Research'',
          ''Internal Problem-Solving Research'']),
      (''rejectedReason'', ZOptional zstring),
      (''mode'', ZEnum [''commercial'', ''product'']),
      (''researchTypeValidated'', ZBoolean),
      (''validationNotes'', ZOptional zstring),
      (''successCriteria'', zstring),
      (''failureCriteria'', zstring),
      (''timeLimitDays'', ZNumber (Some 1) (Some 2)),
      (''costLimitUsd'', ZNumber None (Some 500)),
      (''cycleRiskOrNoGo'', ZOptional ZBoolean),
      (''methods'', ZArray MethodSchema (Some 1) (Some 3)),
      (''methodsJustification'', zstring),
      (''handoffPackage'', ZObject
         [(''researchGoal'', zstring),
          (''researchType'', zstring),
          (''icpAndBuyerRole'', zstring),
          (''initialPaidEngagement'', zstring),
          (''methodsWithHypothesesAndProof'', zstring),
          (''validationAlgorithm'', zstring),
          (''businessAndMoneyLogic'', zstring),
          (''cycleRiskFlag'', ZOptional ZBoolean),
          (''risksAndLimitations'', zstring),
          (''sourcesOrLinks'', zstring)]),
      (''handoffWithinPageLimit'', ZBoolean)]"
  by (simp add: PhaseEOutputSchema_def extend_obj_def shape_D)

lemma shape_F: "shape PhaseFOutputSchema =
     [(''phase'', ZLiteral (JStr ''F'')),
      (''accepted'', ZBoolean),
      (''businessGoal'', zstring),
      (''timeHorizonDays'', ZUnion [ZLiteral (JNum 30), ZLiteral (JNum 60), ZLiteral (JNum 90)]),
      (''researchType'', ZEnum
         [''Commercial Opportunity Research'',
          ''Product Market Fit Validation'',
          ''Technology-to-Business Research'',
          ''Investment Opportunity Research'',
          ''Internal Problem-Solving Research'']),
      (''rejectedReason'', ZOptional zstring),
      (''mode'', ZEnum [''commercial'', ''product'']),
      (''researchTypeValidated'', ZBoolean),
      (''validationNotes'', ZOptional zstring),
      (''successCriteria'', zstring),
      (''failureCriteria'', zstring),
      (''timeLimitDays'', ZNumber (Some 1) (Some 2)),
      (''costLimitUsd'', ZNumber None (Some 500)),
      (''cycleRiskOrNoGo'', ZOptional ZBoolean),
      (''methods'', ZArray MethodSchema (Some 1) (Some 3)),
      (''methodsJustification'', zstring),
      (''handoffPackage'', ZObject
         [(''researchGoal'', zstring),
          (''researchType'', zstring),
          (''icpAndBuyerRole'', zstring),
          (''initialPaidEngagement'', zstring),
          (''methodsWithHypothesesAndProof'', zstring),
          (''validationAlgorithm'', zstring),
          (''businessAndMoneyLogic'', zstring),
          (''cycleRiskFlag'', ZOptional ZBoolean),
          (''risksAndLimitations'', zstring),
          (''sourcesOrLinks'', zstring)]),
      (''handoffWithinPageLimit'', ZBoolean),
      (''status'', ZEnum [''SUCCESS'', ''PARTIAL_SUCCESS'', ''FAIL'']),
      (''executorFeedback'', ZObject
         [(''primaryReason'', zstring),
          (''whatWouldHaveChangedResult'', ZOptional zstring)])]"
  by (simp add: PhaseFOutputSchema_def extend_obj_def shape_E)

lemmas shape_phase = shape_A shape_B shape_C shape_D shape_E shape_F

lemma schema_is_object: "schema_of p = ZObject (shape (schema_of p))"
  by (cases p) (simp_all add: PhaseAOutputSchema_def PhaseBOutputSchema_def
      PhaseCOutputSchema_def PhaseDOutputSchema_def PhaseEOutputSchema_def
      PhaseFOutputSchema_def extend_obj_def)

lemma keys_A: "keys PhaseAOutputSchema =
  [''phase'', ''accepted'', ''businessGoal'', ''timeHorizonDays'', ''researchType'',
   ''rejectedReason'', ''mode'']"
  by (simp add: keys_def shape_A)

lemma keys_B: "keys PhaseBOutputSchema =
  keys PhaseAOutputSchema @ [''researchTypeValidated'', ''validationNotes'']"
  by (simp add: keys_def shape_A shape_B)

lemma keys_C: "keys PhaseCOutputSchema =
  keys PhaseBOutputSchema @ [''successCriteria'', ''failureCriteria'', ''timeLimitDays'',
   ''costLimitUsd'', ''cycleRiskOrNoGo'']"
  by (simp add: keys_def shape_C shape_B)

lemma keys_D: "keys PhaseDOutputSchema =
  keys PhaseCOutputSchema @ [''methods'', ''methodsJustification'']"
  by (simp add: keys_def shape_C shape_D)

lemma keys_E: "keys PhaseEOutputSchema =
  keys PhaseDOutputSchema @ [''handoffPackage'', ''handoffWithinPageLimit'']"
  by (simp add: keys_def shape_D shape_E)

lemma keys_F: "keys PhaseFOutputSchema =
  keys PhaseEOutputSchema @ [''status'', ''executorFeedback'']"
  by (simp add: keys_def shape_E shape_F)

lemmas keys_phase = keys_F keys_E keys_D keys_C keys_B keys_A

lemma distinct_keys: "distinct (keys (schema_of p))"
  by (cases p) (simp_all add: keys_phase)


lemma spec_in_shape: "spec_of (schema_of p) k = Some s \<longleftrightarrow> (k, s) \<in> set (shape (schema_of p))"
  using distinct_keys [of p] by (simp add: spec_of_def keys_def)

lemma spec_timeHorizonDays:
  "spec_of (schema_of p) ''timeHorizonDays'' =
     Some (ZUnion [ZLiteral (JNum 30), ZLiteral (JNum 60), ZLiteral (JNum 90)])"
  by (cases p) (simp_all add: spec_of_def shape_phase)

lemma parse_horizon:
  "parse (ZUnion [ZLiteral (JNum 30), ZLiteral (JNum 60), ZLiteral (JNum 90)]) x = Some y
   \<Longrightarrow> x \<in> {JNum 30, JNum 60, JNum 90} \<and> y = x"
  by (auto split: if_splits)

text \<open>
  Claim C6. Whenever a phase schema (A to F) accepts a value, the value is an object
  whose \<open>timeHorizonDays\<close> is the number 30, 60 or 90, and the parsed record carries
  the same number.
\<close>

theorem timeHorizonDays_30_60_90:
  assumes "parse (schema_of p) v = Some w"
  shows "\<exists>fs ofs. v = JObj fs \<and> w = JObj ofs
           \<and> getProp fs ''timeHorizonDays'' \<in> {JNum 30, JNum 60, JNum 90}
           \<and> getProp ofs ''timeHorizonDays'' = getProp fs ''timeHorizonDays''"
proof -
  let ?u = "ZUnion [ZLiteral (JNum 30), ZLiteral (JNum 60), ZLiteral (JNum 90)]"
  have obj: "parse (ZObject (shape (schema_of p))) v = Some w"
    using assms schema_is_object [of p] by simp
  have dist: "distinct (map fst (shape (schema_of p)))"
    using distinct_keys [of p] by (simp add: keys_def)
  have mem: "(''timeHorizonDays'', ?u) \<in> set (shape (schema_of p))"
    using spec_timeHorizonDays [of p] by (simp add: spec_in_shape)
  from parse_ZObject_prop [OF obj dist mem]
  obtain fs ofs where v: "v = JObj fs" and w: "w = JObj ofs"
    and pr: "parse ?u (getProp fs ''timeHorizonDays'') = Some (getProp ofs ''timeHorizonDays'')"
    by blast
  from parse_horizon [OF pr] v w show ?thesis by blast
qed

lemma sample_valid: "valid (schema_of p) (JObj (sample_record p))"
  by (cases p) (simp_all add: valid_def sample_record_def sample_fields_def PhaseAOutputSchema_def
      PhaseBOutputSchema_def PhaseCOutputSchema_def PhaseDOutputSchema_def PhaseEOutputSchema_def
      PhaseFOutputSchema_def extend_obj_def MethodSchema_def getProp_def above_def below_def)

text \<open>
  Witness for C6: the Phase F sample record parses, with \<open>timeHorizonDays = 60\<close>.
\<close>

theorem timeHorizonDays_30_60_90_witness:
  "parse (schema_of PhaseF) (JObj (sample_record PhaseF)) \<noteq> None
   \<and> getProp (fields_of (the (parse (schema_of PhaseF) (JObj (sample_record PhaseF)))))
        ''timeHorizonDays'' = JNum 60"
proof -
  obtain w where w: "parse (schema_of PhaseF) (JObj (sample_record PhaseF)) = Some w"
    using sample_valid [of PhaseF] by (auto simp: valid_def)
  from timeHorizonDays_30_60_90 [OF w]
  obtain fs ofs where r: "JObj (sample_record PhaseF) = JObj fs" and o: "w = JObj ofs"
    and eq: "getProp ofs ''timeHorizonDays'' = getProp fs ''timeHorizonDays''"
    by blast
  from r have "getProp fs ''timeHorizonDays'' = JNum 60"
    by (auto simp: sample_record_def sample_fields_def getProp_def)
  with w o eq show ?thesis by simp
qed

lemma valid_number: "valid (ZNumber lo hi) x \<longleftrightarrow> (\<exists>t. x = JNum t \<and> above lo t \<and> below hi t)"
  by (cases x) (simp_all add: valid_def)

lemma valid_update2:
  assumes ok: "valid (ZObject sh) (JObj fs)" and dist: "distinct (map fst sh)"
    and m1: "(k1, s1) \<in> set sh" and m2: "(k2, s2) \<in> set sh" and ne: "k1 \<noteq> k2"
  shows "valid (ZObject sh) (JObj (AList.update k1 x (AList.update k2 y fs)))
         \<longleftrightarrow> valid s1 x \<and> valid s2 y"
proof
  assume "valid (ZObject sh) (JObj (AList.update k1 x (AList.update k2 y fs)))"
  then have all: "\<forall>ks\<in>set sh. valid (snd ks)
      (getProp (AList.update k1 x (AList.update k2 y fs)) (fst ks))"
    by (simp add: valid_ZObject)
  from all m1 have "valid s1 x" by (force simp: getProp_update)
  moreover from all m2 ne have "valid s2 y" by (force simp: getProp_update)
  ultimately show "valid s1 x \<and> valid s2 y" ..
next
  assume new: "valid s1 x \<and> valid s2 y"
  have "valid (snd ks) (getProp (AList.update k1 x (AList.update k2 y fs)) (fst ks))"
    if mem: "ks \<in> set sh" for ks
  proof -
    from ok mem have old: "valid (snd ks) (getProp fs (fst ks))"
      by (simp add: valid_ZObject)
    have e1: "snd ks = s1" if "fst ks = k1"
      using that mem m1 dist by (metis eq_key_imp_eq_value prod.collapse)
    have e2: "snd ks = s2" if "fst ks = k2"
      using that mem m2 dist by (metis eq_key_imp_eq_value prod.collapse)
    show ?thesis using old new e1 e2 by (auto simp: getProp_update)
  qed
  then show "valid (ZObject sh) (JObj (AList.update k1 x (AList.update k2 y fs)))"
    by (simp add: valid_ZObject)
qed

lemma spec_limits:
  assumes "p \<in> {PhaseC, PhaseD, PhaseE, PhaseF}"
  shows "spec_of (schema_of p) ''timeLimitDays'' = Some (ZNumber (Some 1) (Some 2))"
    and "spec_of (schema_of p) ''costLimitUsd'' = Some (ZNumber None (Some 500))"
  using assms by (auto simp: spec_of_def shape_phase)

text \<open>
  Claim C10. In phases C, D, E and F, replacing \<open>timeLimitDays\<close> and \<open>costLimitUsd\<close>
  in a valid record gives a valid record exactly when the first is a number of the real
  interval from 1 to 2 and the second a number at most 500: no integrality is asked for,
  and the cost has no lower bound.
\<close>

theorem phaseC_limit_bounds:
  assumes late: "p \<in> {PhaseC, PhaseD, PhaseE, PhaseF}"
    and ok: "valid (schema_of p) (JObj fs)"
  shows "valid (schema_of p)
           (JObj (AList.update ''timeLimitDays'' x (AList.update ''costLimitUsd'' y fs)))
         \<longleftrightarrow> (\<exists>t c. x = JNum t \<and> y = JNum c \<and> 1 \<le> t \<and> t \<le> 2 \<and> c \<le> 500)"
proof -
  let ?sh = "shape (schema_of p)"
  have ok': "valid (ZObject ?sh) (JObj fs)"
    using ok schema_is_object [of p] by simp
  have dist: "distinct (map fst ?sh)"
    using distinct_keys [of p] by (simp add: keys_def)
  have m1: "(''timeLimitDays'', ZNumber (Some 1) (Some 2)) \<in> set ?sh"
    using spec_limits(1) [OF late] by (simp add: spec_in_shape)
  have m2: "(''costLimitUsd'', ZNumber None (Some 500)) \<in> set ?sh"
    using spec_limits(2) [OF late] by (simp add: spec_in_shape)
  have "valid (ZObject ?sh)
          (JObj (AList.update ''timeLimitDays'' x (AList.update ''costLimitUsd'' y fs)))
        \<longleftrightarrow> valid (ZNumber (Some 1) (Some 2)) x \<and> valid (ZNumber None (Some 500)) y"
    by (rule valid_update2 [OF ok' dist m1 m2]) simp
  then show ?thesis
    using schema_is_object [of p] by (auto simp: valid_number above_def below_def)
qed

text \<open>
  Witness for C10: 1.5 days with a cost of 0, of -100 and of 500 validate in phases C
  to F; 3 days with a cost of 501 do not.
\<close>

theorem phaseC_limit_bounds_witness:
  "valid (schema_of PhaseC) (JObj (sample_record PhaseC))
   \<and> valid (schema_of PhaseC) (JObj (AList.update ''timeLimitDays'' (JNum 1.5)
        (AList.update ''costLimitUsd'' (JNum 0) (sample_record PhaseC))))
   \<and> valid (schema_of PhaseD) (JObj (AList.update ''timeLimitDays'' (JNum 1.5)
        (AList.update ''costLimitUsd'' (JNum (- 100)) (sample_record PhaseD))))
   \<and> valid (schema_of PhaseE) (JObj (AList.update ''timeLimitDays'' (JNum 1)
        (AList.update ''costLimitUsd'' (JNum (- 100)) (sample_record PhaseE))))
   \<and> valid (schema_of PhaseF) (JObj (AList.update ''timeLimitDays'' (JNum 1.5)
        (AList.update ''costLimitUsd'' (JNum 500) (sample_record PhaseF))))
   \<and> \<not> valid (schema_of PhaseF) (JObj (AList.update ''timeLimitDays'' (JNum 3)
        (AList.update ''costLimitUsd'' (JNum 501) (sample_record PhaseF))))"
proof -
  have inC: "PhaseC \<in> {PhaseC, PhaseD, PhaseE, PhaseF}"
    and inD: "PhaseD \<in> {PhaseC, PhaseD, PhaseE, PhaseF}"
    and inE: "PhaseE \<in> {PhaseC, PhaseD, PhaseE, PhaseF}"
    and inF: "PhaseF \<in> {PhaseC, PhaseD, PhaseE, PhaseF}"
    by simp_all
  have e1: "\<exists>t c. JNum 1.5 = JNum t \<and> JNum 0 = JNum c \<and> 1 \<le> t \<and> t \<le> 2 \<and> c \<le> (500::real)"
    by (rule exI [of _ "1.5"], rule exI [of _ 0]) simp
  have e2: "\<exists>t c. JNum 1.5 = JNum t \<and> JNum (- 100) = JNum c \<and> 1 \<le> t \<and> t \<le> 2 \<and> c \<le> (500::real)"
    by (rule exI [of _ "1.5"], rule exI [of _ "- 100"]) simp
  have e3: "\<exists>t c. JNum 1 = JNum t \<and> JNum (- 100) = JNum c \<and> 1 \<le> t \<and> t \<le> 2 \<and> c \<le> (500::real)"
    by (rule exI [of _ 1], rule exI [of _ "- 100"]) simp
  have e4: "\<exists>t c. JNum 1.5 = JNum t \<and> JNum 500 = JNum c \<and> 1 \<le> t \<and> t \<le> 2 \<and> c \<le> (500::real)"
    by (rule exI [of _ "1.5"], rule exI [of _ 500]) simp
  have e5: "\<not> (\<exists>t c. JNum 3 = JNum t \<and> JNum 501 = JNum c \<and> 1 \<le> t \<and> t \<le> 2 \<and> c \<le> (500::real))"
    by simp
  show ?thesis
    using phaseC_limit_bounds [OF inC sample_valid, of "JNum 1.5" "JNum 0"] e1
      phaseC_limit_bounds [OF inD sample_valid, of "JNum 1.5" "JNum (- 100)"] e2
      phaseC_limit_bounds [OF inE sample_valid, of "JNum 1" "JNum (- 100)"] e3
      phaseC_limit_bounds [OF inF sample_valid, of "JNum 1.5" "JNum 500"] e4
      phaseC_limit_bounds [OF inF sample_valid, of "JNum 3" "JNum 501"] e5
      sample_valid [of PhaseC]
    by blast
qed

subsection \<open>The chain of phase schemas\<close>

lemma spec_phase: "spec_of (schema_of q) ''phase'' = Some (ZLiteral (JStr (tag q)))"
  by (cases q) (simp_all add: spec_of_def shape_phase)

lemma carried:
  assumes "prev_phase q = Some p" and "k \<in> set (keys (schema_of p))" and "k \<noteq> ''phase''"
  shows "spec_of (schema_of q) k = spec_of (schema_of p) k"
proof (cases q)
  case PhaseA with assms show ?thesis by simp
next
  case PhaseB
  with assms have p: "p = PhaseA" by simp
  from assms(2,3) show ?thesis unfolding PhaseB p
    by (simp add: keys_phase) (elim disjE; simp add: spec_of_def shape_A shape_B)
next
  case PhaseC
  with assms have p: "p = PhaseB" by simp
  from assms(2,3) show ?thesis unfolding PhaseC p
    by (simp add: keys_phase) (elim disjE; simp add: spec_of_def shape_B shape_C)
next
  case PhaseD
  with assms have p: "p = PhaseC" by simp
  from assms(2,3) show ?thesis unfolding PhaseD p
    by (simp add: keys_phase) (elim disjE; simp add: spec_of_def shape_C shape_D)
next
  case PhaseE
  with assms have p: "p = PhaseD" by simp
  from assms(2,3) show ?thesis unfolding PhaseE p
    by (simp add: keys_phase) (elim disjE; simp add: spec_of_def shape_D shape_E)
next
  case PhaseF
  with assms have p: "p = PhaseE" by simp
  from assms(2,3) show ?thesis unfolding PhaseF p
    by (simp add: keys_phase) (elim disjE; simp add: spec_of_def shape_E shape_F)
qed

lemma psubset_append: "x \<notin> set xs \<Longrightarrow> set xs \<subset> set (xs @ x # ys)"
  by auto

lemma keys_grow:
  assumes "prev_phase q = Some p"
  shows "set (keys (schema_of p)) \<subset> set (keys (schema_of q))"
proof (cases q)
  case PhaseA with assms show ?thesis by simp
next
  case PhaseB
  with assms have p: "p = PhaseA" by simp
  show ?thesis unfolding PhaseB p schema_of.simps keys_B
    by (rule psubset_append) (simp add: keys_phase)
next
  case PhaseC
  with assms have p: "p = PhaseB" by simp
  show ?thesis unfolding PhaseC p schema_of.simps keys_C
    by (rule psubset_append) (simp add: keys_phase)
next
  case PhaseD
  with assms have p: "p = PhaseC" by simp
  show ?thesis unfolding PhaseD p schema_of.simps keys_D
    by (rule psubset_append) (simp add: keys_phase)
next
  case PhaseE
  with assms have p: "p = PhaseD" by simp
  show ?thesis unfolding PhaseE p schema_of.simps keys_E
    by (rule psubset_append) (simp add: keys_phase)
next
  case PhaseF
  with assms have p: "p = PhaseE" by simp
  show ?thesis unfolding PhaseF p schema_of.simps keys_F
    by (rule psubset_append) (simp add: keys_phase)
qed

lemma new_key:
  assumes "prev_phase q = Some p"
  shows "\<exists>k\<in>set (keys (schema_of q)). \<forall>r\<in>set (earlier q). k \<notin> set (keys (schema_of r))"
proof (cases q)
  case PhaseA with assms show ?thesis by simp
next
  case PhaseB
  show ?thesis unfolding PhaseB
    by (rule bexI [of _ "''researchTypeValidated''"]) (simp_all add: keys_phase)
next
  case PhaseC
  show ?thesis unfolding PhaseC
    by (rule bexI [of _ "''successCriteria''"]) (simp_all add: keys_phase)
next
  case PhaseD
  show ?thesis unfolding PhaseD
    by (rule bexI [of _ "''methods''"]) (simp_all add: keys_phase)
next
  case PhaseE
  show ?thesis unfolding PhaseE
    by (rule bexI [of _ "''handoffPackage''"]) (simp_all add: keys_phase)
next
  case PhaseF
  show ?thesis unfolding PhaseF
    by (rule bexI [of _ "''status''"]) (simp_all add: keys_phase)
qed


lemma valid_retag:
  assumes prev: "prev_phase q = Some p" and ok: "valid (schema_of q) (JObj fs)"
  shows "valid (schema_of p) (JObj (AList.update ''phase'' (JStr (tag p)) fs))"
proof -
  have okq: "\<forall>ks\<in>set (shape (schema_of q)). valid (snd ks) (getProp fs (fst ks))"
    using ok schema_is_object [of q] valid_ZObject [of "shape (schema_of q)" "JObj fs"] by simp
  have "valid (snd ks) (getProp (AList.update ''phase'' (JStr (tag p)) fs) (fst ks))"
    if mem: "ks \<in> set (shape (schema_of p))" for ks
  proof (cases "fst ks = ''phase''")
    case True
    have "spec_of (schema_of p) (fst ks) = Some (snd ks)"
      using mem by (simp add: spec_in_shape)
    with True have "snd ks = ZLiteral (JStr (tag p))"
      by (simp add: spec_phase)
    with True show ?thesis
      by (simp add: getProp_update valid_def)
  next
    case False
    have sp: "spec_of (schema_of p) (fst ks) = Some (snd ks)"
      using mem by (simp add: spec_in_shape)
    have "fst ks \<in> set (keys (schema_of p))"
      using mem by (auto simp: keys_def)
    from carried [OF prev this False] sp
    have "(fst ks, snd ks) \<in> set (shape (schema_of q))"
      by (simp add: spec_in_shape)
    with okq have "valid (snd ks) (getProp fs (fst ks))" by force
    with False show ?thesis by (simp add: getProp_update)
  qed
  then have "valid (ZObject (shape (schema_of p))) (JObj (AList.update ''phase'' (JStr (tag p)) fs))"
    by (simp add: valid_ZObject)
  then show ?thesis using schema_is_object [of p] by simp
qed

lemma required_present:
  assumes ok: "valid (schema_of q) (JObj fs)"
    and sp: "spec_of (schema_of q) k = Some s"
    and req: "\<not> valid s JUndefined"
  shows "getProp fs k \<noteq> JUndefined"
proof -
  have "\<forall>ks\<in>set (shape (schema_of q)). valid (snd ks) (getProp fs (fst ks))"
    using ok schema_is_object [of q] valid_ZObject [of "shape (schema_of q)" "JObj fs"] by simp
  moreover have "(k, s) \<in> set (shape (schema_of q))"
    using sp by (simp add: spec_in_shape)
  ultimately have "valid s (getProp fs k)" by force
  with req show ?thesis by auto
qed

lemma record_new_field:
  assumes ok: "valid (schema_of q) (JObj fs)"
  shows "\<exists>k\<in>set (keys (schema_of q)).
           (\<forall>r\<in>set (earlier q). k \<notin> set (keys (schema_of r))) \<and> getProp fs k \<noteq> JUndefined"
proof (cases q)
  case PhaseA
  have "spec_of (schema_of PhaseA) ''accepted'' = Some ZBoolean"
    by (simp add: spec_of_def shape_A)
  from required_present [OF ok [unfolded PhaseA] this]
  have "getProp fs ''accepted'' \<noteq> JUndefined" by (simp add: valid_def)
  then show ?thesis unfolding PhaseA
    by (intro bexI [of _ "''accepted''"]) (simp_all add: keys_phase)
next
  case PhaseB
  have "spec_of (schema_of PhaseB) ''researchTypeValidated'' = Some ZBoolean"
    by (simp add: spec_of_def shape_B)
  from required_present [OF ok [unfolded PhaseB] this]
  have "getProp fs ''researchTypeValidated'' \<noteq> JUndefined" by (simp add: valid_def)
  then show ?thesis unfolding PhaseB
    by (intro bexI [of _ "''researchTypeValidated''"]) (simp_all add: keys_phase)
next
  case PhaseC
  have "spec_of (schema_of PhaseC) ''successCriteria'' = Some zstring"
    by (simp add: spec_of_def shape_C)
  from required_present [OF ok [unfolded PhaseC] this]
  have "getProp fs ''successCriteria'' \<noteq> JUndefined" by (simp add: valid_def)
  then show ?thesis unfolding PhaseC
    by (intro bexI [of _ "''successCriteria''"]) (simp_all add: keys_phase)
next
  case PhaseD
  have "spec_of (schema_of PhaseD) ''methodsJustification'' = Some zstring"
    by (simp add: spec_of_def shape_D)
  from required_present [OF ok [unfolded PhaseD] this]
  have "getProp fs ''methodsJustification'' \<noteq> JUndefined" by (simp add: valid_def)
  then show ?thesis unfolding PhaseD
    by (intro bexI [of _ "''methodsJustification''"]) (simp_all add: keys_phase)
next
  case PhaseE
  have "spec_of (schema_of PhaseE) ''handoffWithinPageLimit'' = Some ZBoolean"
    by (simp add: spec_of_def shape_E)
  from required_present [OF ok [unfolded PhaseE] this]
  have "getProp fs ''handoffWithinPageLimit'' \<noteq> JUndefined" by (simp add: valid_def)
  then show ?thesis unfolding PhaseE
    by (intro bexI [of _ "''handoffWithinPageLimit''"]) (simp_all add: keys_phase)
next
  case PhaseF
  have "spec_of (schema_of PhaseF) ''status'' = Some (ZEnum [''SUCCESS'', ''PARTIAL_SUCCESS'', ''FAIL''])"
    by (simp add: spec_of_def shape_F)
  from required_present [OF ok [unfolded PhaseF] this]
  have "getProp fs ''status'' \<noteq> JUndefined" by (simp add: valid_def)
  then show ?thesis unfolding PhaseF
    by (intro bexI [of _ "''status''"]) (simp_all add: keys_phase)
qed



text \<open>
  Claim C1, amended. For every phase \<open>q\<close> from A to F, a record valid under \<open>q\<close>'s
  schema contains a field that no earlier phase has, and \<open>phase\<close> is specified as the
  literal of \<open>q\<close>'s own letter. For \<open>q\<close> from B to F with predecessor \<open>p\<close>: the keys
  of \<open>p\<close>'s schema are a proper subset of the keys of \<open>q\<close>'s; every key of \<open>p\<close> other
  than \<open>phase\<close> has the same field schema in \<open>q\<close>; and a record valid under \<open>q\<close> is
  valid under \<open>p\<close> once its \<open>phase\<close> is set back to \<open>p\<close>'s letter. The field \<open>phase\<close>
  is the only one that a later phase re-specifies.
\<close>

theorem phase_schema_additive:
  "(\<forall>fs. valid (schema_of q) (JObj fs) \<longrightarrow>
      (\<exists>k\<in>set (keys (schema_of q)).
         (\<forall>r\<in>set (earlier q). k \<notin> set (keys (schema_of r))) \<and> getProp fs k \<noteq> JUndefined))
   \<and> spec_of (schema_of q) ''phase'' = Some (ZLiteral (JStr (tag q)))
   \<and> (\<forall>p. prev_phase q = Some p \<longrightarrow>
        set (keys (schema_of p)) \<subset> set (keys (schema_of q))
      \<and> (\<forall>k\<in>set (keys (schema_of p)). k \<noteq> ''phase'' \<longrightarrow>
            spec_of (schema_of q) k = spec_of (schema_of p) k)
      \<and> spec_of (schema_of p) ''phase'' = Some (ZLiteral (JStr (tag p)))
      \<and> (\<exists>k\<in>set (keys (schema_of q)). \<forall>r\<in>set (earlier q). k \<notin> set (keys (schema_of r)))
      \<and> (\<forall>fs. valid (schema_of q) (JObj fs) \<longrightarrow>
            valid (schema_of p) (JObj (AList.update ''phase'' (JStr (tag p)) fs))))"
proof (intro conjI allI impI ballI)
  fix fs assume "valid (schema_of q) (JObj fs)"
  then show "\<exists>k\<in>set (keys (schema_of q)).
      (\<forall>r\<in>set (earlier q). k \<notin> set (keys (schema_of r))) \<and> getProp fs k \<noteq> JUndefined"
    by (rule record_new_field)
next
  show "spec_of (schema_of q) ''phase'' = Some (ZLiteral (JStr (tag q)))"
    by (rule spec_phase)
next
  fix p assume "prev_phase q = Some p"
  then show "set (keys (schema_of p)) \<subset> set (keys (schema_of q))"
    by (rule keys_grow)
next
  fix p k assume "prev_phase q = Some p" "k \<in> set (keys (schema_of p))" "k \<noteq> ''phase''"
  then show "spec_of (schema_of q) k = spec_of (schema_of p) k"
    by (rule carried)
next
  fix p show "spec_of (schema_of p) ''phase'' = Some (ZLiteral (JStr (tag p)))"
    by (rule spec_phase)
next
  fix p assume "prev_phase q = Some p"
  then show "\<exists>k\<in>set (keys (schema_of q)). \<forall>r\<in>set (earlier q). k \<notin> set (keys (schema_of r))"
    by (rule new_key)
next
  fix p fs assume "prev_phase q = Some p" "valid (schema_of q) (JObj fs)"
  then show "valid (schema_of p) (JObj (AList.update ''phase'' (JStr (tag p)) fs))"
    by (rule valid_retag)
qed


text \<open>
  Counterexample for C1 as stated: Phase B re-specifies the field \<open>phase\<close> that Phase A
  introduced, and a record valid under Phase B is not valid under Phase A.
\<close>

theorem phase_respecified_counterexample:
  "spec_of PhaseAOutputSchema ''phase'' = Some (ZLiteral (JStr ''A''))
   \<and> spec_of PhaseBOutputSchema ''phase'' = Some (ZLiteral (JStr ''B''))
   \<and> valid PhaseBOutputSchema (JObj (sample_record PhaseB))
   \<and> \<not> valid PhaseAOutputSchema (JObj (sample_record PhaseB))"
proof -
  have "\<not> valid (ZLiteral (JStr ''A'')) (getProp (sample_record PhaseB) ''phase'')"
    by (simp add: valid_def sample_record_def getProp_def)
  moreover have "(''phase'', ZLiteral (JStr ''A'')) \<in> set (shape PhaseAOutputSchema)"
    by (simp add: shape_A)
  ultimately have "\<not> valid (ZObject (shape PhaseAOutputSchema)) (JObj (sample_record PhaseB))"
    unfolding valid_ZObject by force
  then have "\<not> valid PhaseAOutputSchema (JObj (sample_record PhaseB))"
    using schema_is_object [of PhaseA] by simp
  then show ?thesis
    using spec_phase [of PhaseA] spec_phase [of PhaseB] sample_valid [of PhaseB] by simp
qed

text \<open>
  Witness for C1 (amended), at Phase C with predecessor Phase B and the Phase C sample
  record.
\<close>

theorem phase_schema_additive_witness:
  "prev_phase PhaseC = Some PhaseB
   \<and> ''accepted'' \<in> set (keys (schema_of PhaseB))
   \<and> spec_of (schema_of PhaseC) ''accepted'' = spec_of (schema_of PhaseB) ''accepted''
   \<and> spec_of (schema_of PhaseC) ''phase'' \<noteq> spec_of (schema_of PhaseB) ''phase''
   \<and> set (keys (schema_of PhaseB)) \<subset> set (keys (schema_of PhaseC))
   \<and> valid (schema_of PhaseC) (JObj (sample_record PhaseC))
   \<and> valid (schema_of PhaseB) (JObj (AList.update ''phase'' (JStr ''B'') (sample_record PhaseC)))
   \<and> (\<exists>k. k \<in> set (keys (schema_of PhaseC)) \<and> k \<notin> set (keys (schema_of PhaseA))
          \<and> k \<notin> set (keys (schema_of PhaseB))
          \<and> getProp (sample_record PhaseC) k \<noteq> JUndefined)"
proof -
  have p: "prev_phase PhaseC = Some PhaseB" by simp
  have k: "''accepted'' \<in> set (keys (schema_of PhaseB))" by (simp add: keys_phase)
  have n: "''accepted'' \<noteq> ''phase''" by simp
  note t = phase_schema_additive [of PhaseC]
  note t1 = t [THEN conjunct1, rule_format, OF sample_valid]
  note t2 = t [THEN conjunct2, THEN conjunct1]
  note t3 = t [THEN conjunct2, THEN conjunct2, rule_format, OF p]
  have a: "set (keys (schema_of PhaseB)) \<subset> set (keys (schema_of PhaseC))"
    using t3 by (rule conjunct1)
  have b: "spec_of (schema_of PhaseC) ''accepted'' = spec_of (schema_of PhaseB) ''accepted''"
    using t3 [THEN conjunct2, THEN conjunct1, rule_format, OF k n] .
  have c': "spec_of (schema_of PhaseB) ''phase'' = Some (ZLiteral (JStr (tag PhaseB)))"
    using t3 [THEN conjunct2, THEN conjunct2, THEN conjunct1] .
  have d: "valid (schema_of PhaseB)
      (JObj (AList.update ''phase'' (JStr (tag PhaseB)) (sample_record PhaseC)))"
    using t3 [THEN conjunct2, THEN conjunct2, THEN conjunct2, THEN conjunct2, rule_format,
        OF sample_valid] .
  from t1 obtain x where x: "x \<in> set (keys (schema_of PhaseC))"
    and xe: "\<forall>r\<in>set (earlier PhaseC). x \<notin> set (keys (schema_of r))"
    and xd: "getProp (sample_record PhaseC) x \<noteq> JUndefined"
    by (elim bexE conjE)
  from xe have "x \<notin> set (keys (schema_of PhaseA))" and "x \<notin> set (keys (schema_of PhaseB))"
    by simp_all
  with x xd have f: "\<exists>k. k \<in> set (keys (schema_of PhaseC)) \<and> k \<notin> set (keys (schema_of PhaseA))
          \<and> k \<notin> set (keys (schema_of PhaseB))
          \<and> getProp (sample_record PhaseC) k \<noteq> JUndefined"
    by (intro exI [of _ x] conjI)
  have ne: "spec_of (schema_of PhaseC) ''phase'' \<noteq> spec_of (schema_of PhaseB) ''phase''"
    unfolding t2 c' by simp
  have tb: "tag PhaseB = ''B''" by simp
  show ?thesis
    using p k a b ne sample_valid [of PhaseC] d [unfolded tb] f
    by (intro conjI)
qed

section \<open>Properties of the search tools\<close>

lemma trimWith_none: "find (\<lambda>w. w \<noteq> [] \<and> take (length w) s = w) ws = None \<Longrightarrow> trimWith ws s = s"
  by (subst trimWith.simps) simp

lemma trimWith_some: "find (\<lambda>w. w \<noteq> [] \<and> take (length w) s = w) ws = Some w \<Longrightarrow> trimWith ws s = trimWith ws (drop (length w) s)"
  by (subst trimWith.simps) simp

lemma f1: "find (\<lambda>w. w \<noteq> [] \<and> take (length w) ''k'' = w) whitespace = None"
  by (simp add: whitespace_def)

lemma f2: "find (\<lambda>w. w \<noteq> [] \<and> take (length w) ''k'' = w) (map rev whitespace) = None"
  by (simp add: whitespace_def)

lemma trim_k: "trim ''k'' = ''k''"
  by (simp add: trim_def trimWith_none [OF f1] trimWith_none [OF f2])


lemma f3: "find (\<lambda>w. w \<noteq> [] \<and> take (length w) ''  '' = w) whitespace = Some '' ''"
  by (simp add: whitespace_def)

lemma f4: "find (\<lambda>w. w \<noteq> [] \<and> take (length w) '' '' = w) whitespace = Some '' ''"
  by (simp add: whitespace_def)

lemma f5: "find (\<lambda>w. w \<noteq> [] \<and> take (length w) [] = w) ws = None"
  by (induction ws) auto

lemma trimWith_Nil: "trimWith ws [] = []"
  by (rule trimWith_none [OF f5])

lemma trim_spaces: "trim ''  '' = []"
proof -
  have "trimWith whitespace ''  '' = trimWith whitespace '' ''"
    using trimWith_some [OF f3] by simp
  also have "\<dots> = trimWith whitespace []"
    using trimWith_some [OF f4] by simp
  finally show ?thesis by (simp add: trim_def trimWith_Nil)
qed

lemma key_k: "getSerperApiKey (Some [''SERPER_API_KEY'' \<mapsto> ''k'']) = Some ''k''"
  by (simp add: getSerperApiKey_def trim_k)

text \<open>
  Claim C5. When no search credential is configured (\<open>getSerperApiKey\<close> yields
  nothing), internet-search returns, for every query, result count and network, the
  value with \<open>success = False\<close>, no results and a fixed non-empty error string. The
  function is total: no path of \<open>execute\<close> raises.
\<close>

theorem internetSearch_no_credential:
  assumes "getSerperApiKey proc = None"
  shows "internetSearchTool_execute proc fetch q n =
           \<lparr>success = False, query = q, results = [],
            error = Some ''SERPER_API_KEY not set. Add it to .env for live web search.''\<rparr>
         \<and> (\<exists>msg. error (internetSearchTool_execute proc fetch q n) = Some msg \<and> msg \<noteq> [])"
  using assms by (simp add: internetSearchTool_execute_def unsuccessful_def)

text \<open>
  Witness for C5: no process object, an unset variable and a blank variable all count
  as no credential.
\<close>

theorem internetSearch_no_credential_witness:
  "getSerperApiKey None = None
   \<and> getSerperApiKey (Some Map.empty) = None
   \<and> getSerperApiKey (Some [''SERPER_API_KEY'' \<mapsto> ''  '']) = None
   \<and> internetSearchTool_execute (Some [''SERPER_API_KEY'' \<mapsto> ''  ''])
        (\<lambda>i r. Inl (Error ''unreachable'')) ''market size'' 5 =
           \<lparr>success = False, query = ''market size'', results = [],
            error = Some ''SERPER_API_KEY not set. Add it to .env for live web search.''\<rparr>"
proof -
  have a: "getSerperApiKey None = None" by (simp add: getSerperApiKey_def)
  have b: "getSerperApiKey (Some Map.empty) = None" by (simp add: getSerperApiKey_def)
  have c: "getSerperApiKey (Some [''SERPER_API_KEY'' \<mapsto> ''  '']) = None"
    by (simp add: getSerperApiKey_def trim_spaces)
  from a b c internetSearch_no_credential [OF c] show ?thesis by blast
qed

lemma slice0_nonneg: "0 \<le> n \<Longrightarrow> slice0 xs n = take (nat \<lfloor>n\<rfloor>) xs"
  by (auto simp: slice0_def trunc_def Let_def min_def)

lemma length_slice0: "0 \<le> n \<Longrightarrow> real (length (slice0 xs n)) \<le> n"
proof -
  assume n: "0 \<le> n"
  have "length (take (nat \<lfloor>n\<rfloor>) xs) \<le> nat \<lfloor>n\<rfloor>" by simp
  then have "real (length (take (nat \<lfloor>n\<rfloor>) xs)) \<le> real (nat \<lfloor>n\<rfloor>)" by linarith
  also have "\<dots> \<le> n" using n by simp
  finally show ?thesis using n by (simp add: slice0_nonneg)
qed

lemma slice0_three: "slice0 xs numPerQuery = take 3 xs"
  by (simp add: slice0_nonneg numPerQuery_def)

lemma parse_search_input:
  assumes "parse internetSearchTool_inputSchema v = Some w"
  shows "\<exists>raw q n. v = JObj raw \<and> w = JObj [(''query'', JStr q), (''numResults'', JNum n)]
           \<and> getProp raw ''query'' = JStr q
           \<and> 1 \<le> length q \<and> length q \<le> 300 \<and> 1 \<le> n \<and> n \<le> 10
           \<and> (getProp raw ''numResults'' = JUndefined \<longrightarrow> n = 5)
           \<and> (getProp raw ''numResults'' \<noteq> JUndefined \<longrightarrow> getProp raw ''numResults'' = JNum n)"
  using assms
  by (cases v)
     (auto simp: internetSearchTool_inputSchema_def strip_def above_def below_def
           split: option.splits jvalue.splits if_splits)


text \<open>
  Claim C8. An input that the internet-search input schema accepts is an object with a
  string \<open>query\<close> and a result count between 1 and 10, which is 5 when the input gives
  none; and whenever \<open>execute\<close> on the parsed input succeeds, its results are the
  leading entries of the response's \<open>organic\<close> list, in order, no more than the
  requested count.
\<close>

theorem internetSearch_capped:
  assumes "parse internetSearchTool_inputSchema v = Some w"
  shows "\<exists>raw q n. v = JObj raw
           \<and> w = JObj [(''query'', JStr q), (''numResults'', JNum n)]
           \<and> getProp raw ''query'' = JStr q
           \<and> 1 \<le> n \<and> n \<le> 10
           \<and> (getProp raw ''numResults'' = JUndefined \<longrightarrow> n = 5)
           \<and> (getProp raw ''numResults'' \<noteq> JUndefined \<longrightarrow> getProp raw ''numResults'' = JNum n)
           \<and> (\<forall>proc fetch. success (internetSearchTool_execute proc fetch q n) \<longrightarrow>
                 real (length (results (internetSearchTool_execute proc fetch q n))) \<le> n
                 \<and> (\<exists>apiKey res data. getSerperApiKey proc = Some apiKey
                       \<and> fetch 0 (mk_request apiKey q n) = Inr res
                       \<and> res_ok res \<and> res_json res = Inr data
                       \<and> results (internetSearchTool_execute proc fetch q n)
                           = map to_result (take (nat \<lfloor>n\<rfloor>) (organic_of data))))"
proof -
  from parse_search_input [OF assms]
  obtain raw q n where v: "v = JObj raw"
    and w: "w = JObj [(''query'', JStr q), (''numResults'', JNum n)]"
    and q: "getProp raw ''query'' = JStr q"
    and n: "1 \<le> n" "n \<le> 10"
    and d: "getProp raw ''numResults'' = JUndefined \<longrightarrow> n = 5"
    and g: "getProp raw ''numResults'' \<noteq> JUndefined \<longrightarrow> getProp raw ''numResults'' = JNum n"
    by blast
  have n0: "0 \<le> n" using n by simp
  have run: "real (length (results (internetSearchTool_execute proc fetch q n))) \<le> n
       \<and> (\<exists>apiKey res data. getSerperApiKey proc = Some apiKey
             \<and> fetch 0 (mk_request apiKey q n) = Inr res
             \<and> res_ok res \<and> res_json res = Inr data
             \<and> results (internetSearchTool_execute proc fetch q n)
                 = map to_result (take (nat \<lfloor>n\<rfloor>) (organic_of data)))"
    if "success (internetSearchTool_execute proc fetch q n)" for proc fetch
    using that
    by (auto simp: internetSearchTool_execute_def unsuccessful_def
                   length_slice0 [OF n0] slice0_nonneg [OF n0, symmetric]
             split: option.splits sum.splits if_splits)
  from v w q n d g run show ?thesis by blast
qed

lemma sample_key: "getSerperApiKey sample_process = Some ''k''"
  by (simp add: sample_process_def key_k)

text \<open>
  Witness for C8: no count given, seven entries in the response, five returned.
\<close>

theorem internetSearch_capped_witness:
  "parse internetSearchTool_inputSchema (JObj [(''query'', JStr ''saas pricing'')])
     = Some (JObj [(''query'', JStr ''saas pricing''), (''numResults'', JNum 5)])
   \<and> success (internetSearchTool_execute sample_process
         (\<lambda>i r. Inr (ok_response (replicate 7 sample_item))) ''saas pricing'' 5)
   \<and> real (length (results (internetSearchTool_execute sample_process
         (\<lambda>i r. Inr (ok_response (replicate 7 sample_item))) ''saas pricing'' 5))) \<le> 5
   \<and> results (internetSearchTool_execute sample_process
         (\<lambda>i r. Inr (ok_response (replicate 7 sample_item))) ''saas pricing'' 5)
       = replicate 5 \<lparr>title = ''T'', link = ''https://example.org'', snippet = []\<rparr>"
proof -
  let ?f = "\<lambda>(i::nat) (r::request). (Inr (ok_response (replicate 7 sample_item)) :: thrown + response)"
  have p: "parse internetSearchTool_inputSchema (JObj [(''query'', JStr ''saas pricing'')])
     = Some (JObj [(''query'', JStr ''saas pricing''), (''numResults'', JNum 5)])"
    by (simp add: internetSearchTool_inputSchema_def getProp_def strip_def above_def below_def)
  have ex: "internetSearchTool_execute sample_process ?f ''saas pricing'' 5 =
      \<lparr>success = True, query = ''saas pricing'',
       results = replicate 5 \<lparr>title = ''T'', link = ''https://example.org'', snippet = []\<rparr>,
       error = None\<rparr>"
    by (simp add: internetSearchTool_execute_def sample_key ok_response_def organic_of_def
        slice0_def trunc_def to_result_def sample_item_def orEmpty_def)
  then have s: "success (internetSearchTool_execute sample_process ?f ''saas pricing'' 5)"
    by simp
  from internetSearch_capped [OF p] s
  have "real (length (results (internetSearchTool_execute sample_process ?f ''saas pricing'' 5))) \<le> 5"
    by auto
  with p s ex show ?thesis by simp
qed

lemma run_queries_eq:
  "run_queries fetch apiKey i qs acc =
     acc @ map (\<lambda>j. query_finding fetch apiKey (i + j) (qs ! j)) [0..<length qs]"
proof (induction qs arbitrary: i acc)
  case Nil
  show ?case by simp
next
  case (Cons q qs)
  have "[0..<length (q # qs)] = 0 # map Suc [0..<length qs]"
    by (simp add: upt_conv_Cons map_Suc_upt del: upt_Suc)
  then show ?case
    by (simp add: Cons.IH comp_def)
qed

lemma query_finding_query: "f_query (query_finding fetch apiKey i q) = q"
  by (simp add: query_finding_def split: sum.splits)

lemma query_finding_length: "length (f_results (query_finding fetch apiKey i q)) \<le> 3"
  by (simp add: query_finding_def slice0_three split: sum.splits)


lemma query_finding_ok:
  "fetch i (mk_request apiKey q numPerQuery) = Inr res \<Longrightarrow> res_ok res \<Longrightarrow> res_json res = Inr data \<Longrightarrow>
   query_finding fetch apiKey i q = \<lparr>f_query = q, f_results = map to_result (take 3 (organic_of data))\<rparr>"
  by (simp add: query_finding_def slice0_three)

text \<open>
  Claim C9. With a credential configured, deep-research reports success, its findings
  carry the input queries in input order (one entry per query), and no entry has more
  than 3 results, whatever the network does.
\<close>

theorem deepResearch_findings:
  assumes "getSerperApiKey proc = Some apiKey"
  shows "d_success (deepResearchTool_execute proc fetch r qs)
       \<and> map f_query (findings (deepResearchTool_execute proc fetch r qs)) = qs
       \<and> length (findings (deepResearchTool_execute proc fetch r qs)) = length qs
       \<and> (\<forall>f\<in>set (findings (deepResearchTool_execute proc fetch r qs)). length (f_results f) \<le> 3)"
proof -
  have f: "findings (deepResearchTool_execute proc fetch r qs) =
      map (\<lambda>j. query_finding fetch apiKey j (qs ! j)) [0..<length qs]"
    using assms by (simp add: deepResearchTool_execute_def run_queries_eq)
  have "map f_query (map (\<lambda>j. query_finding fetch apiKey j (qs ! j)) [0..<length qs]) = qs"
    by (simp add: comp_def query_finding_query map_nth)
  moreover have "d_success (deepResearchTool_execute proc fetch r qs)"
    using assms by (simp add: deepResearchTool_execute_def)
  ultimately show ?thesis
    unfolding f by (auto simp: query_finding_length)
qed

text \<open>
  Witness for C9: every fetch fails, the tool still succeeds with one empty entry per
  query.
\<close>

theorem deepResearch_findings_witness:
  "getSerperApiKey sample_process = Some ''k''
   \<and> deepResearchTool_execute sample_process (\<lambda>i r. Inl (Error ''ECONNREFUSED'')) ''why'' [''q1'', ''q2'']
      = \<lparr>d_success = True, reasoning = ''why'',
         findings = [\<lparr>f_query = ''q1'', f_results = []\<rparr>, \<lparr>f_query = ''q2'', f_results = []\<rparr>],
         synthesisHint = ''Synthesize the above findings with respect to: why. Cite sources; note conflicts or gaps.'',
         d_error = None\<rparr>
   \<and> d_success (deepResearchTool_execute sample_process (\<lambda>i r. Inl (Error ''ECONNREFUSED'')) ''why'' [''q1'', ''q2''])
   \<and> map f_query (findings (deepResearchTool_execute sample_process
         (\<lambda>i r. Inl (Error ''ECONNREFUSED'')) ''why'' [''q1'', ''q2''])) = [''q1'', ''q2'']"
proof -
  have "deepResearchTool_execute sample_process (\<lambda>i r. Inl (Error ''ECONNREFUSED'')) ''why'' [''q1'', ''q2'']
      = \<lparr>d_success = True, reasoning = ''why'',
         findings = [\<lparr>f_query = ''q1'', f_results = []\<rparr>, \<lparr>f_query = ''q2'', f_results = []\<rparr>],
         synthesisHint = ''Synthesize the above findings with respect to: why. Cite sources; note conflicts or gaps.'',
         d_error = None\<rparr>"
    by (simp add: deepResearchTool_execute_def sample_key query_finding_def)
  with sample_key deepResearch_findings [OF sample_key] show ?thesis by simp
qed









text \<open>
  Claim C3, amended. The synthesis hint is a fixed template around the reasoning string
  when a credential is configured, and a fixed setup hint otherwise; it does not depend
  on the queries or on the responses.
\<close>

theorem synthesisHint_template:
  "synthesisHint (deepResearchTool_execute proc fetch r qs) =
     (case getSerperApiKey proc of
        None \<Rightarrow> ''Add SERPER_API_KEY to .env for live deep research.''
      | Some apiKey \<Rightarrow> ''Synthesize the above findings with respect to: '' @ r
                        @ ''. Cite sources; note conflicts or gaps.'')"
  by (simp add: deepResearchTool_execute_def split: option.splits)

text \<open>
  Counterexample for C3 as stated: two reasoning strings give two different hints, and
  so does the absence of the credential.
\<close>

theorem synthesisHint_counterexample:
  "synthesisHint (deepResearchTool_execute sample_process
       (\<lambda>i r. Inl (Error ''ECONNREFUSED'')) ''pricing'' [''q''])
   \<noteq> synthesisHint (deepResearchTool_execute sample_process
       (\<lambda>i r. Inl (Error ''ECONNREFUSED'')) ''churn'' [''q''])
   \<and> synthesisHint (deepResearchTool_execute None
       (\<lambda>i r. Inl (Error ''ECONNREFUSED'')) ''pricing'' [''q''])
   \<noteq> synthesisHint (deepResearchTool_execute sample_process
       (\<lambda>i r. Inl (Error ''ECONNREFUSED'')) ''pricing'' [''q''])"
proof -
  have none: "getSerperApiKey None = None"
    by (simp add: getSerperApiKey_def)
  show ?thesis
    by (simp add: deepResearchTool_execute_def sample_key none)
qed

section \<open>Properties of the pipeline declaration and of the run tool\<close>

lemma intake_ne_phase: "IntakeOutputSchema \<noteq> schema_of p"
  by (cases p) (simp_all add: IntakeOutputSchema_def PhaseAOutputSchema_def PhaseBOutputSchema_def
      PhaseCOutputSchema_def PhaseDOutputSchema_def PhaseEOutputSchema_def PhaseFOutputSchema_def
      extend_obj_def)

lemma schema_of_inj: "schema_of p = schema_of q \<Longrightarrow> p = q"
proof -
  assume "schema_of p = schema_of q"
  then have "map_of (shape (schema_of p)) ''phase'' = map_of (shape (schema_of q)) ''phase''"
    by simp
  then have "tag p = tag q" using spec_phase [of p] spec_phase [of q] by (simp add: spec_of_def)
  then show ?thesis by (cases p; cases q) simp_all
qed

lemma schemas_distinct:
  "distinct [IntakeOutputSchema, PhaseAOutputSchema, PhaseBOutputSchema, PhaseCOutputSchema,
     PhaseDOutputSchema, PhaseEOutputSchema, PhaseFOutputSchema]"
proof -
  have dist: "distinct [PhaseA, PhaseB, PhaseC, PhaseD, PhaseE, PhaseF]"
    by simp
  have inj: "inj_on schema_of (set [PhaseA, PhaseB, PhaseC, PhaseD, PhaseE, PhaseF])"
    by (rule inj_onI) (rule schema_of_inj)
  have "distinct (map schema_of [PhaseA, PhaseB, PhaseC, PhaseD, PhaseE, PhaseF])"
    by (subst distinct_map) (rule conjI [OF dist inj])
  moreover have "IntakeOutputSchema \<notin> set (map schema_of [PhaseA, PhaseB, PhaseC, PhaseD, PhaseE, PhaseF])"
    using intake_ne_phase [of PhaseA] intake_ne_phase [of PhaseB] intake_ne_phase [of PhaseC]
      intake_ne_phase [of PhaseD] intake_ne_phase [of PhaseE] intake_ne_phase [of PhaseF]
    by simp
  ultimately show ?thesis by simp
qed

lemma stepFlow_chain: "stepFlow (createResearchExecutionWorkflow agents) =
     [Sequential (stepIntake agents), Sequential bridgeIntakeToA,
      Sequential (stepPhaseA agents), Sequential bridgeAtoB,
      Sequential (stepPhaseB agents), Sequential bridgeBtoC,
      Sequential (stepPhaseC agents), Sequential bridgeCtoD,
      Sequential (stepPhaseD agents), Sequential bridgeDtoE,
      Sequential (stepPhaseE agents), Sequential bridgeEtoF,
      Sequential (stepPhaseF agents)]"
  by (simp add: createResearchExecutionWorkflow_def commit_def then_step_def createWorkflow_def)

lemmas step_defs = stepIntake_def stepPhaseA_def stepPhaseB_def stepPhaseC_def stepPhaseD_def
  stepPhaseE_def stepPhaseF_def bridgeIntakeToA_def bridgeAtoB_def bridgeBtoC_def bridgeCtoD_def
  bridgeDtoE_def bridgeEtoF_def

text \<open>
  Claim C7. For any agents, the declared step flow is the thirteen sequential entries
  Intake, bridge, A, bridge, B, bridge, C, bridge, D, bridge, E, bridge, F: seven agent
  steps and six bridge steps, each entry occurring once, with no parallel, branch or
  loop entry, and the workflow is committed.
\<close>

theorem workflow_linear_chain:
  "stepFlow (createResearchExecutionWorkflow agents) =
     [Sequential (AgentStep (intakeAgent agents) IntakeOutputSchema), Sequential bridgeIntakeToA,
      Sequential (AgentStep (phaseAAgent agents) PhaseAOutputSchema), Sequential bridgeAtoB,
      Sequential (AgentStep (phaseBAgent agents) PhaseBOutputSchema), Sequential bridgeBtoC,
      Sequential (AgentStep (phaseCAgent agents) PhaseCOutputSchema), Sequential bridgeCtoD,
      Sequential (AgentStep (phaseDAgent agents) PhaseDOutputSchema), Sequential bridgeDtoE,
      Sequential (AgentStep (phaseEAgent agents) PhaseEOutputSchema), Sequential bridgeEtoF,
      Sequential (AgentStep (phaseFAgent agents) PhaseFOutputSchema)]
   \<and> length (filter is_agent_step (stepFlow (createResearchExecutionWorkflow agents))) = 7
   \<and> length (filter is_bridge_step (stepFlow (createResearchExecutionWorkflow agents))) = 6
   \<and> filter is_sequential (stepFlow (createResearchExecutionWorkflow agents))
       = stepFlow (createResearchExecutionWorkflow agents)
   \<and> distinct (stepFlow (createResearchExecutionWorkflow agents))
   \<and> committed (createResearchExecutionWorkflow agents)"
proof -
  have d: "distinct (stepFlow (createResearchExecutionWorkflow agents))"
    using schemas_distinct unfolding stepFlow_chain by (simp add: step_defs)
  have c: "committed (createResearchExecutionWorkflow agents)"
    by (simp add: createResearchExecutionWorkflow_def commit_def)
  from d c show ?thesis unfolding stepFlow_chain by (simp add: step_defs)
qed

lemma runTool_settles:
  "runTool_execute (Handle \<lparr>createRun = Resolves t0 \<lparr>runId = rid, start = (\<lambda>args. Resolves t outcome)\<rparr>\<rparr>) ctx p
     = Resolves (t0 + t) (report outcome)"
  by (simp add: runTool_execute_def resolveWorkflow_def)

text \<open>
  Claim C2, evaluated on the code. A run whose \<open>start\<close> settles after eleven minutes
  with status \<open>success\<close> is reported as a success, past the ten-minute budget, and a
  run that never settles leaves the tool pending: \<open>execute\<close> has no timer and no
  cancellation.
\<close>

theorem runTool_no_timeout:
  "runTool_execute
     (Handle \<lparr>createRun = Resolves 5 \<lparr>runId = ''run-1'',
        start = (\<lambda>args. Resolves 660000
                   \<lparr>status = ''success'', result = JObj (sample_record PhaseF), out_error = None\<rparr>)\<rparr>\<rparr>)
     None ''prompt''
   = Resolves 660005
       \<lparr>t_run = True, t_status = Some ''success'', t_result = JObj (sample_record PhaseF),
        t_error = None,
        t_message = ''Pipeline completed successfully (Phases A'' @ arrow
                     @ ''F). Final result is below; tell the user in this chat.''\<rparr>
   \<and> budget_ms < 660005
   \<and> runTool_execute
       (Handle \<lparr>createRun = Resolves 5 \<lparr>runId = ''run-1'', start = (\<lambda>args. Pending)\<rparr>\<rparr>)
       None ''prompt'' = Pending"
  by (simp add: runTool_execute_def resolveWorkflow_def report_def budget_ms_def)

end
